theory Spec2Isabelle
  imports Complex_Main
begin

section \<open>Python values and exceptions\<close>

text \<open>
  The program is one Python module, \<^verbatim>\<open>streamlit_app.py\<close>. Its functions are embedded
  as HOL functions over a datatype of Python values. A call that can raise returns
  \<open>error + 'a\<close>, with \<open>Inl\<close> for the exception; \<open>try: ... except Exception:\<close> is
  \<open>catch\<close>. Every constructor of \<open>error\<close> is a subclass of Python's \<open>Exception\<close>.
\<close>

datatype error =
    TypeError | ValueError | ZeroDivisionError | OverflowError
  | IndexError | KeyError | AttributeError | LibraryError string

definition bind :: "error + 'a \<Rightarrow> ('a \<Rightarrow> error + 'b) \<Rightarrow> error + 'b" where
  "bind m f = (case m of Inl e \<Rightarrow> Inl e | Inr x \<Rightarrow> f x)"

definition catch :: "error + 'a \<Rightarrow> (error \<Rightarrow> error + 'a) \<Rightarrow> error + 'a" where
  "catch m h = (case m of Inl e \<Rightarrow> h e | Inr x \<Rightarrow> Inr x)"

subsection \<open>Floats\<close>

text \<open>
  A Python float is an IEEE 754 binary64 value: a finite value (kept as the rational it
  denotes, \<open>Fin 0\<close> being \<open>+0.0\<close>), negative zero, an infinity or a NaN. Arithmetic
  computes the exact rational result and rounds it to the nearest binary64 value, ties to
  even.
\<close>

datatype pyfloat = Fin rat | NZero | PInf | NInf | NaN

definition round_half_even :: "rat \<Rightarrow> int" where
  "round_half_even q =
     (let f = \<lfloor>q\<rfloor>; r = q - of_int f in
      if r < 1 / 2 then f else if 1 / 2 < r then f + 1
      else if even f then f else f + 1)"

fun bit_length :: "nat \<Rightarrow> nat" where
  "bit_length n = (if n = 0 then 0 else Suc (bit_length (n div 2)))"

declare bit_length.simps [simp del]

definition pow2 :: "int \<Rightarrow> rat" where
  "pow2 k = (if 0 \<le> k then 2 ^ nat k else 1 / 2 ^ nat (- k))"

definition floor_log2 :: "rat \<Rightarrow> int" where
  \<comment> \<open>for \<open>0 < q\<close>: the \<open>e\<close> with \<open>2 ^ e \<le> q < 2 ^ (e + 1)\<close>\<close>
  "floor_log2 q =
     (if 1 \<le> q then int (bit_length (nat \<lfloor>q\<rfloor>)) - 1
      else - int (bit_length (nat (\<lceil>1 / q\<rceil> - 1))))"

definition round_pos :: "rat \<Rightarrow> pyfloat" where
  \<comment> \<open>for \<open>0 < q\<close>: 53 significant bits, least exponent \<open>-1074\<close>, overflow to infinity\<close>
  "round_pos q =
     (let e = max (floor_log2 q - 52) (- 1074);
          v = of_int (round_half_even (q / pow2 e)) * pow2 e
      in if 2 ^ 1024 \<le> v then PInf else Fin v)"

fun fneg :: "pyfloat \<Rightarrow> pyfloat" where
  "fneg (Fin q) = (if q = 0 then NZero else Fin (- q))"
| "fneg NZero = Fin 0"
| "fneg PInf = NInf"
| "fneg NInf = PInf"
| "fneg NaN = NaN"

definition to_binary64 :: "rat \<Rightarrow> pyfloat" where
  "to_binary64 q =
     (if q = 0 then Fin 0 else if 0 < q then round_pos q else fneg (round_pos (- q)))"

fun is_zero :: "pyfloat \<Rightarrow> bool" where
  "is_zero (Fin q) = (q = 0)"
| "is_zero NZero = True"
| "is_zero _ = False"

fun fadd :: "pyfloat \<Rightarrow> pyfloat \<Rightarrow> pyfloat" where
  "fadd NaN _ = NaN"
| "fadd _ NaN = NaN"
| "fadd PInf NInf = NaN"
| "fadd NInf PInf = NaN"
| "fadd PInf _ = PInf"
| "fadd _ PInf = PInf"
| "fadd NInf _ = NInf"
| "fadd _ NInf = NInf"
| "fadd NZero y = y"
| "fadd x NZero = x"
| "fadd (Fin a) (Fin b) = to_binary64 (a + b)"

fun fpositive :: "pyfloat \<Rightarrow> bool" where
  \<comment> \<open>the sign bit is clear\<close>
  "fpositive (Fin q) = (0 \<le> q)"
| "fpositive PInf = True"
| "fpositive _ = False"

fun fdiv :: "pyfloat \<Rightarrow> pyfloat \<Rightarrow> pyfloat" where
  \<comment> \<open>IEEE division by a divisor that is not a zero\<close>
  "fdiv NaN _ = NaN"
| "fdiv _ NaN = NaN"
| "fdiv PInf y = (if y = PInf \<or> y = NInf then NaN else if fpositive y then PInf else NInf)"
| "fdiv NInf y = (if y = PInf \<or> y = NInf then NaN else if fpositive y then NInf else PInf)"
| "fdiv x PInf = (if fpositive x then Fin 0 else NZero)"
| "fdiv x NInf = (if fpositive x then NZero else Fin 0)"
| "fdiv NZero y = (if fpositive y then NZero else Fin 0)"
| "fdiv (Fin a) y =
     (case y of
        Fin b \<Rightarrow> (if a = 0 then (if 0 < b then Fin 0 else NZero) else to_binary64 (a / b))
      | _ \<Rightarrow> NaN)"

definition py_truediv :: "pyfloat \<Rightarrow> pyfloat \<Rightarrow> error + pyfloat" where
  \<comment> \<open>Python's \<open>x / y\<close> on floats\<close>
  "py_truediv x y = (if is_zero y then Inl ZeroDivisionError else Inr (fdiv x y))"

definition round7 :: "pyfloat \<Rightarrow> pyfloat" where
  \<comment> \<open>Python's \<open>round(x, 7)\<close>: the exact value is rounded to 7 decimals, ties to even,
      and the decimal is converted back to the nearest float; a zero keeps the sign of
      \<open>x\<close>, infinities and NaN round to themselves\<close>
  "round7 x =
     (case x of
        Fin q \<Rightarrow>
          (let k = round_half_even (q * 10 ^ 7) in
           if k = 0 then (if q < 0 then NZero else Fin 0)
           else to_binary64 (of_int k / 10 ^ 7))
      | _ \<Rightarrow> x)"

definition float_of_int :: "int \<Rightarrow> error + pyfloat" where
  \<comment> \<open>Python's \<open>float(n)\<close> on an int: correctly rounded, OverflowError when too large\<close>
  "float_of_int n =
     (case to_binary64 (of_int n) of
        PInf \<Rightarrow> Inl OverflowError | NInf \<Rightarrow> Inl OverflowError | f \<Rightarrow> Inr f)"

subsection \<open>Values\<close>

text \<open>
  The values that a metadata mapping can hold. A \<open>str\<close> is kept as its UTF-8 bytes, a
  \<open>dict\<close> as its items in insertion order.
\<close>

datatype pyval =
    PNone
  | PBool bool
  | PInt int
  | PFloat pyfloat
  | PStr string
  | PBytes string
  | PTuple "pyval list"
  | PList "pyval list"
  | PDict "(pyval \<times> pyval) list"

fun truthy :: "pyval \<Rightarrow> bool" where
  "truthy PNone = False"
| "truthy (PBool b) = b"
| "truthy (PInt n) = (n \<noteq> 0)"
| "truthy (PFloat f) = (\<not> is_zero f)"
| "truthy (PStr s) = (s \<noteq> [])"
| "truthy (PBytes s) = (s \<noteq> [])"
| "truthy (PTuple xs) = (xs \<noteq> [])"
| "truthy (PList xs) = (xs \<noteq> [])"
| "truthy (PDict d) = (d \<noteq> [])"

fun py_eq_int :: "int \<Rightarrow> pyval \<Rightarrow> bool" where
  \<comment> \<open>\<open>v == k\<close> for an int \<open>k\<close>: numbers compare by value, \<open>True == 1\<close>\<close>
  "py_eq_int k (PInt n) = (n = k)"
| "py_eq_int k (PBool b) = ((if b then 1 else 0) = k)"
| "py_eq_int k (PFloat (Fin q)) = (q = of_int k)"
| "py_eq_int k (PFloat NZero) = (k = 0)"
| "py_eq_int k _ = False"

fun dict_lookup :: "(pyval \<times> pyval) list \<Rightarrow> int \<Rightarrow> pyval option" where
  "dict_lookup [] k = None"
| "dict_lookup ((k', v) # d) k = (if py_eq_int k k' then Some v else dict_lookup d k)"

fun py_contains :: "int \<Rightarrow> pyval \<Rightarrow> error + bool" where
  \<comment> \<open>\<open>k in v\<close>\<close>
  "py_contains k (PDict d) = Inr (dict_lookup d k \<noteq> None)"
| "py_contains k (PTuple xs) = Inr (list_ex (py_eq_int k) xs)"
| "py_contains k (PList xs) = Inr (list_ex (py_eq_int k) xs)"
| "py_contains k (PBytes bs) =
     (if 0 \<le> k \<and> k < 256 then Inr (list_ex (\<lambda>c. of_char c = k) bs) else Inl ValueError)"
| "py_contains k _ = Inl TypeError"

fun py_get :: "pyval \<Rightarrow> int \<Rightarrow> pyval \<Rightarrow> error + pyval" where
  \<comment> \<open>\<open>v.get(k, default)\<close>: only a dict has the method\<close>
  "py_get (PDict d) k dflt = Inr (case dict_lookup d k of None \<Rightarrow> dflt | Some v \<Rightarrow> v)"
| "py_get _ k dflt = Inl AttributeError"

subsection \<open>Text\<close>

definition utf8_cont :: "char \<Rightarrow> bool" where
  "utf8_cont c = (128 \<le> (of_char c :: nat) \<and> (of_char c :: nat) \<le> 191)"

definition byte_in :: "nat \<Rightarrow> nat \<Rightarrow> char \<Rightarrow> bool" where
  "byte_in lo hi c = (lo \<le> of_char c \<and> (of_char c :: nat) \<le> hi)"

definition utf8_len :: "string \<Rightarrow> nat" where
  \<comment> \<open>the length of the well-formed UTF-8 sequence that starts the text, 0 if none does\<close>
  "utf8_len s =
     (case s of
        [] \<Rightarrow> 0
      | a # r \<Rightarrow>
          if (of_char a :: nat) < 128 then 1
          else (case r of
             [] \<Rightarrow> 0
           | b # r2 \<Rightarrow>
               if byte_in 194 223 a \<and> utf8_cont b then 2
               else (case r2 of
                  [] \<Rightarrow> 0
                | c # r3 \<Rightarrow>
                    if (byte_in 224 224 a \<and> byte_in 160 191 b \<or> byte_in 225 236 a \<and> utf8_cont b
                        \<or> byte_in 237 237 a \<and> byte_in 128 159 b \<or> byte_in 238 239 a \<and> utf8_cont b)
                       \<and> utf8_cont c then 3
                    else (case r3 of
                       [] \<Rightarrow> 0
                     | d # r4 \<Rightarrow>
                         if (byte_in 240 240 a \<and> byte_in 144 191 b \<or> byte_in 241 243 a \<and> utf8_cont b
                             \<or> byte_in 244 244 a \<and> byte_in 128 143 b)
                            \<and> utf8_cont c \<and> utf8_cont d then 4
                         else 0))))"

fun utf8_chars :: "string \<Rightarrow> string list" where
  \<comment> \<open>the code points of a text, each as its UTF-8 sequence; a byte that starts no
      well-formed sequence is dropped\<close>
  "utf8_chars [] = []"
| "utf8_chars (a # r) =
     (let n = utf8_len (a # r) in
      if n = 0 then utf8_chars r
      else (a # take (n - 1) r) # utf8_chars (drop (n - 1) r))"

definition decode_ignore :: "string \<Rightarrow> string" where
  \<comment> \<open>\<open>bytes.decode(errors="ignore")\<close>: UTF-8, ill-formed bytes dropped\<close>
  "decode_ignore bs = concat (utf8_chars bs)"

definition ascii_upper :: "char \<Rightarrow> char" where
  "ascii_upper c =
     (case map_of (zip ''abcdefghijklmnopqrstuvwxyz'' ''ABCDEFGHIJKLMNOPQRSTUVWXYZ'') c of
        None \<Rightarrow> c | Some u \<Rightarrow> u)"

definition upper_char :: "string \<Rightarrow> string" where
  \<comment> \<open>the upper case of one code point: ASCII letters, and U+017F (long s), whose upper
      case is \<open>S\<close>; the program compares the result with \<open>S\<close> and \<open>W\<close> only, and no other
      code point has one of them as its upper case\<close>
  "upper_char cs = (if cs = [CHR 0xC5, CHR 0xBF] then ''S'' else map ascii_upper cs)"

definition str_upper :: "string \<Rightarrow> string" where
  "str_upper s = concat (map upper_char (utf8_chars s))"

fun py_upper :: "pyval \<Rightarrow> error + pyval" where
  \<comment> \<open>\<open>v.upper()\<close>: a method of \<open>str\<close> and of \<open>bytes\<close>\<close>
  "py_upper (PStr s) = Inr (PStr (str_upper s))"
| "py_upper (PBytes bs) = Inr (PBytes (map ascii_upper bs))"
| "py_upper _ = Inl AttributeError"

subsection \<open>Indexing and conversion to float\<close>

fun py_getitem :: "pyval \<Rightarrow> nat \<Rightarrow> error + pyval" where
  \<comment> \<open>\<open>v[i]\<close> for a literal index \<open>i \<ge> 0\<close>\<close>
  "py_getitem (PTuple xs) i = (if i < length xs then Inr (xs ! i) else Inl IndexError)"
| "py_getitem (PList xs) i = (if i < length xs then Inr (xs ! i) else Inl IndexError)"
| "py_getitem (PStr s) i =
     (if i < length (utf8_chars s) then Inr (PStr (utf8_chars s ! i)) else Inl IndexError)"
| "py_getitem (PBytes bs) i =
     (if i < length bs then Inr (PInt (of_char (bs ! i))) else Inl IndexError)"
| "py_getitem (PDict d) i =
     (case dict_lookup d (int i) of None \<Rightarrow> Inl KeyError | Some v \<Rightarrow> Inr v)"
| "py_getitem _ i = Inl TypeError"

fun py_float :: "(pyval \<Rightarrow> pyfloat option) \<Rightarrow> pyval \<Rightarrow> error + pyfloat" where
  \<comment> \<open>\<open>float(v)\<close>. The parser of the text forms of a float is the interpreter's and is a
      parameter: \<open>parse v\<close> is its result on a \<open>str\<close> or \<open>bytes\<close> value, \<open>None\<close> when it
      raises ValueError\<close>
  "py_float parse (PFloat f) = Inr f"
| "py_float parse (PInt n) = float_of_int n"
| "py_float parse (PBool b) = Inr (Fin (if b then 1 else 0))"
| "py_float parse (PStr s) =
     (case parse (PStr s) of None \<Rightarrow> Inl ValueError | Some f \<Rightarrow> Inr f)"
| "py_float parse (PBytes bs) =
     (case parse (PBytes bs) of None \<Rightarrow> Inl ValueError | Some f \<Rightarrow> Inr f)"
| "py_float parse _ = Inl TypeError"

section \<open>The GPS coordinate resolver\<close>

text \<open>
  \<^verbatim>\<open>_rational_to_float\<close> (lines 52 to 59): the body of its \<^verbatim>\<open>try\<close>, and the function
  with the handler that turns every exception into \<open>0.0\<close>.
\<close>

fun rational_to_float_try :: "(pyval \<Rightarrow> pyfloat option) \<Rightarrow> pyval \<Rightarrow> error + pyfloat" where
  "rational_to_float_try parse (PTuple [r0, r1]) =
     (if truthy r1
      then bind (py_float parse r0) (\<lambda>x. bind (py_float parse r1) (\<lambda>y. py_truediv x y))
      else Inr (Fin 0))"
| "rational_to_float_try parse r = py_float parse r"

definition rational_to_float :: "(pyval \<Rightarrow> pyfloat option) \<Rightarrow> pyval \<Rightarrow> error + pyfloat" where
  "rational_to_float parse r = catch (rational_to_float_try parse r) (\<lambda>e. Inr (Fin 0))"

text \<open>
  \<^verbatim>\<open>extract_gps_from_exif\<close> (lines 46 to 104). \<open>extract_gps_try\<close> is the body of the
  \<^verbatim>\<open>try\<close> of lines 80 to 100; the membership tests, the four \<^verbatim>\<open>get\<close> calls and the
  truth tests of lines 71 to 78 are outside it.
\<close>

definition decode_ref :: "pyval \<Rightarrow> pyval" where
  \<comment> \<open>lines 91 to 94: a \<open>bytes\<close> reference is decoded, any other value is kept\<close>
  "decode_ref r = (case r of PBytes bs \<Rightarrow> PStr (decode_ignore bs) | _ \<Rightarrow> r)"

definition extract_gps_try ::
  "(pyval \<Rightarrow> pyfloat option) \<Rightarrow> pyval \<Rightarrow> pyval \<Rightarrow> pyval \<Rightarrow> pyval
     \<Rightarrow> error + (pyfloat \<times> pyfloat) option" where
  "extract_gps_try parse lat_ref lon_ref lat_vals lon_vals =
     bind (bind (py_getitem lat_vals 0) (rational_to_float parse)) (\<lambda>lat_deg.
     bind (bind (py_getitem lat_vals 1) (rational_to_float parse)) (\<lambda>lat_min.
     bind (bind (py_getitem lat_vals 2) (rational_to_float parse)) (\<lambda>lat_sec.
     bind (bind (py_getitem lon_vals 0) (rational_to_float parse)) (\<lambda>lon_deg.
     bind (bind (py_getitem lon_vals 1) (rational_to_float parse)) (\<lambda>lon_min.
     bind (bind (py_getitem lon_vals 2) (rational_to_float parse)) (\<lambda>lon_sec.
     bind (py_truediv lat_min (Fin 60)) (\<lambda>lat_m.
     bind (py_truediv lat_sec (Fin 3600)) (\<lambda>lat_s.
     bind (py_truediv lon_min (Fin 60)) (\<lambda>lon_m.
     bind (py_truediv lon_sec (Fin 3600)) (\<lambda>lon_s.
     let lat = fadd (fadd lat_deg lat_m) lat_s;
         lon = fadd (fadd lon_deg lon_m) lon_s
     in
     bind (py_upper (decode_ref lat_ref)) (\<lambda>lat_up.
     let lat' = (if lat_up = PStr ''S'' then fneg lat else lat) in
     bind (py_upper (decode_ref lon_ref)) (\<lambda>lon_up.
     let lon' = (if lon_up = PStr ''W'' then fneg lon else lon) in
     Inr (Some (round7 lat', round7 lon'))))))))))))))"

definition exif_get :: "(string \<times> pyval) list \<Rightarrow> string \<Rightarrow> pyval" where
  \<comment> \<open>\<open>exif.get(key)\<close>: \<open>None\<close> when the key is absent\<close>
  "exif_get exif key = (case map_of exif key of None \<Rightarrow> PNone | Some v \<Rightarrow> v)"

definition extract_gps_from_exif ::
  "(pyval \<Rightarrow> pyfloat option) \<Rightarrow> (string \<times> pyval) list
     \<Rightarrow> error + (pyfloat \<times> pyfloat) option" where
  "extract_gps_from_exif parse exif =
     (let gps_ifd = exif_get exif ''GPSInfo'' in
      if \<not> truthy gps_ifd then Inr None
      else
        bind (py_contains 2 gps_ifd) (\<lambda>has2.
        if \<not> has2 then Inr None
        else
          bind (py_contains 4 gps_ifd) (\<lambda>has4.
          if \<not> has4 then Inr None
          else
            bind (py_get gps_ifd 1 (PStr ''N'')) (\<lambda>lat_ref.
            bind (py_get gps_ifd 3 (PStr ''E'')) (\<lambda>lon_ref.
            bind (py_get gps_ifd 2 PNone) (\<lambda>lat_vals.
            bind (py_get gps_ifd 4 PNone) (\<lambda>lon_vals.
            if \<not> truthy lat_vals \<or> \<not> truthy lon_vals then Inr None
            else catch (extract_gps_try parse lat_ref lon_ref lat_vals lon_vals)
                   (\<lambda>e. Inr None))))))))"

section \<open>The metadata decoder\<close>

text \<open>
  A \<open>dict\<close> with \<open>str\<close> keys is a list of items in insertion order; an assignment
  \<^verbatim>\<open>d[k] = v\<close> replaces the value of a key that is present and appends a new key.
\<close>

fun dict_set :: "'k \<Rightarrow> 'v \<Rightarrow> ('k \<times> 'v) list \<Rightarrow> ('k \<times> 'v) list" where
  "dict_set k v [] = [(k, v)]"
| "dict_set k v ((k', v') # d) =
     (if k' = k then (k, v) # d else (k', v') # dict_set k v d)"

fun digits :: "nat \<Rightarrow> string" where
  "digits n =
     (if n < 10 then [''0123456789'' ! n]
      else digits (n div 10) @ [''0123456789'' ! (n mod 10)])"

declare digits.simps [simp del]

definition str_int :: "int \<Rightarrow> string" where
  \<comment> \<open>\<open>str(n)\<close> of an int\<close>
  "str_int n = (if n < 0 then CHR ''-'' # digits (nat (- n)) else digits (nat n))"

text \<open>
  An image, as far as the program looks at it. \<open>getexif\<close> is the accessor
  \<^verbatim>\<open>_getexif\<close>: \<open>None\<close> when the image has no such attribute, else the outcome of
  calling it, which is an exception, \<open>None\<close>, or the raw mapping from tag ids to values.
\<close>

record image =
  getexif :: "(error + (int \<times> pyval) list option) option"
  format :: pyval
  width :: int
  height :: int
  mode :: pyval

definition tag_name :: "(int \<rightharpoonup> string) \<Rightarrow> int \<Rightarrow> string" where
  \<comment> \<open>\<open>ExifTags.TAGS.get(tag_id, str(tag_id))\<close>; the table \<open>TAGS\<close> is Pillow's\<close>
  "tag_name TAGS tag_id = (case TAGS tag_id of None \<Rightarrow> str_int tag_id | Some n \<Rightarrow> n)"

definition decode_exif ::
  "(int \<rightharpoonup> string) \<Rightarrow> 'a image_scheme \<Rightarrow> error + (string \<times> pyval) list" where
  "decode_exif TAGS img =
     (case getexif img of
        None \<Rightarrow> Inr []
      | Some call \<Rightarrow>
          bind call (\<lambda>r.
          let raw_exif = (case r of None \<Rightarrow> [] | Some d \<Rightarrow> d) in
          if raw_exif = [] then Inr []
          else Inr (fold (\<lambda>(tag_id, v) exif_data. dict_set (tag_name TAGS tag_id) v exif_data)
                      raw_exif [])))"

section \<open>The caption and keyword extractor\<close>

text \<open>
  The object that \<^verbatim>\<open>IPTCInfo(...)\<close> returns, as far as \<^verbatim>\<open>extract_iptc\<close> uses it: the
  keys its iteration yields, the exception that ends the iteration if one does, and
  the lookup \<^verbatim>\<open>info[key]\<close>. The constructor and \<open>str\<close> on the library's objects are
  parameters.
\<close>

record iptc_info =
  info_keys :: "pyval list"
  info_iter_error :: "error option"
  info_getitem :: "pyval \<Rightarrow> error + pyval"

definition iptc_store ::
  "(pyval \<Rightarrow> error + string) \<Rightarrow> pyval \<Rightarrow> pyval \<Rightarrow> (string \<times> pyval) list
     \<Rightarrow> error + (string \<times> pyval) list" where
  \<comment> \<open>lines 117 to 121: the inner \<^verbatim>\<open>try\<close> and its handler; an assignment evaluates its
      right-hand side before the subscript\<close>
  "iptc_store py_str key v iptc_data =
     catch
       (let serializable = (case v of PBytes bs \<Rightarrow> PStr (decode_ignore bs) | _ \<Rightarrow> v) in
        bind (py_str key) (\<lambda>k. Inr (dict_set k serializable iptc_data)))
       (\<lambda>e. bind (py_str v) (\<lambda>sv. bind (py_str key) (\<lambda>k. Inr (dict_set k (PStr sv) iptc_data))))"

fun iptc_loop ::
  "(pyval \<Rightarrow> error + string) \<Rightarrow> (pyval \<Rightarrow> error + pyval) \<Rightarrow> pyval list
     \<Rightarrow> (string \<times> pyval) list \<Rightarrow> error + (string \<times> pyval) list" where
  "iptc_loop py_str getitem [] iptc_data = Inr iptc_data"
| "iptc_loop py_str getitem (key # keys) iptc_data =
     bind (getitem key) (\<lambda>v.
     bind (iptc_store py_str key v iptc_data) (\<lambda>d. iptc_loop py_str getitem keys d))"

definition extract_iptc ::
  "bool \<Rightarrow> (string \<Rightarrow> error + iptc_info) \<Rightarrow> (pyval \<Rightarrow> error + string) \<Rightarrow> string
     \<Rightarrow> error + (string \<times> pyval) list" where
  "extract_iptc iptc_available IPTCInfo py_str image_bytes =
     (if \<not> iptc_available then Inr []
      else
        catch
          (bind (IPTCInfo image_bytes) (\<lambda>info.
           bind (iptc_loop py_str (info_getitem info) (info_keys info) []) (\<lambda>iptc_data.
           case info_iter_error info of Some e \<Rightarrow> Inl e | None \<Rightarrow> Inr iptc_data)))
          (\<lambda>e. Inr []))"

section \<open>The text recognizer and the language identifier\<close>

definition is_space :: "string \<Rightarrow> bool" where
  \<comment> \<open>the code points that \<open>str.strip()\<close> removes, each as its UTF-8 sequence\<close>
  "is_space cs =
     (case cs of
        [a] \<Rightarrow> byte_in 9 13 a \<or> byte_in 28 32 a
      | [a, b] \<Rightarrow> a = CHR 0xC2 \<and> (b = CHR 0x85 \<or> b = CHR 0xA0)
      | [a, b, c] \<Rightarrow>
          a = CHR 0xE1 \<and> b = CHR 0x9A \<and> c = CHR 0x80
          \<or> a = CHR 0xE2 \<and> b = CHR 0x80
              \<and> (byte_in 128 138 c \<or> c = CHR 0xA8 \<or> c = CHR 0xA9 \<or> c = CHR 0xAF)
          \<or> a = CHR 0xE2 \<and> b = CHR 0x81 \<and> c = CHR 0x9F
          \<or> a = CHR 0xE3 \<and> b = CHR 0x80 \<and> c = CHR 0x80
      | _ \<Rightarrow> False)"

definition strip :: "string \<Rightarrow> string" where
  "strip s = concat (rev (dropWhile is_space (rev (dropWhile is_space (utf8_chars s)))))"

definition perform_ocr ::
  "bool \<Rightarrow> ('i \<Rightarrow> error + string) \<Rightarrow> 'i \<Rightarrow> error + string" where
  "perform_ocr external_ocr_available image_to_string img =
     (if \<not> external_ocr_available then Inr []
      else catch (image_to_string img) (\<lambda>e. Inr []))"

definition detect_language ::
  "bool \<Rightarrow> (string \<Rightarrow> error + string) \<Rightarrow> string \<Rightarrow> error + string option" where
  "detect_language language_detection_available detect text =
     (if \<not> language_detection_available \<or> strip text = [] then Inr None
      else catch (bind (detect text) (\<lambda>code. Inr (Some code))) (\<lambda>e. Inr None))"

section \<open>The aggregator\<close>

definition google_maps_link :: "(pyfloat \<Rightarrow> string) \<Rightarrow> pyfloat \<Rightarrow> pyfloat \<Rightarrow> string" where
  \<comment> \<open>the f-string of line 146; \<open>float_repr\<close> is the interpreter's \<open>repr\<close> of a float\<close>
  "google_maps_link float_repr lat lon =
     ''https://www.google.com/maps?q='' @ float_repr lat @ '','' @ float_repr lon"

definition rsplit1_head :: "string \<Rightarrow> string" where
  \<comment> \<open>\<open>s.rsplit(".", 1)[0]\<close>: what precedes the last dot, the whole of \<open>s\<close> without one\<close>
  "rsplit1_head s =
     (if CHR ''.'' \<in> set s then rev (tl (dropWhile (\<lambda>c. c \<noteq> CHR ''.'') (rev s))) else s)"

definition export_file_name :: "string \<Rightarrow> string" where
  "export_file_name name = rsplit1_head name @ ''_metadata.json''"

definition str_dict :: "(string \<times> pyval) list \<Rightarrow> pyval" where
  "str_dict d = PDict (map (\<lambda>(k, v). (PStr k, v)) d)"

text \<open>
  \<^verbatim>\<open>json.dumps\<close> has a form for \<open>None\<close>, \<open>bool\<close>, \<open>int\<close>, \<open>float\<close> (with the default
  \<open>allow_nan\<close> also for an infinity and a NaN) and \<open>str\<close>, for a \<open>tuple\<close> and a \<open>list\<close> of
  such values, and for a \<open>dict\<close> of them whose keys are \<open>str\<close>, \<open>int\<close>, \<open>float\<close>, \<open>bool\<close> or
  \<open>None\<close>. On any other value, so on \<open>bytes\<close>, it raises TypeError. The text that it
  returns otherwise is the library's and is a parameter.
\<close>

fun json_key :: "pyval \<Rightarrow> bool" where
  "json_key (PStr s) = True"
| "json_key (PInt n) = True"
| "json_key (PFloat f) = True"
| "json_key (PBool b) = True"
| "json_key PNone = True"
| "json_key _ = False"

fun json_serializable :: "pyval \<Rightarrow> bool" where
  "json_serializable (PBytes bs) = False"
| "json_serializable (PTuple xs) = list_all json_serializable xs"
| "json_serializable (PList xs) = list_all json_serializable xs"
| "json_serializable (PDict d) = list_all (\<lambda>(k, v). json_key k \<and> json_serializable v) d"
| "json_serializable _ = True"

definition json_dumps ::
  "(bool \<Rightarrow> nat \<Rightarrow> pyval \<Rightarrow> string) \<Rightarrow> bool \<Rightarrow> nat \<Rightarrow> pyval \<Rightarrow> error + string" where
  \<comment> \<open>\<^verbatim>\<open>json.dumps(v, ensure_ascii=..., indent=...)\<close>, then \<^verbatim>\<open>.encode("utf-8")\<close>, which
      leaves a text kept as its UTF-8 bytes as it is\<close>
  "json_dumps encode ensure_ascii indent v =
     (if json_serializable v then Inr (encode ensure_ascii indent v) else Inl TypeError)"

text \<open>
  What \<^verbatim>\<open>main\<close> is given from outside the module: the interpreter's conversions and
  the libraries. \<open>json_encode ensure_ascii indent v\<close> is the text of \<^verbatim>\<open>json.dumps\<close> for a
  value that it accepts.
\<close>

record 'i env =
  parse_float :: "pyval \<Rightarrow> pyfloat option"
  float_repr :: "pyfloat \<Rightarrow> string"
  py_str :: "pyval \<Rightarrow> error + string"
  TAGS :: "int \<rightharpoonup> string"
  image_open :: "string \<Rightarrow> error + 'i image_scheme"
  convert_rgb :: "'i image_scheme \<Rightarrow> error + 'i image_scheme"
  iptc_available :: bool
  IPTCInfo :: "string \<Rightarrow> error + iptc_info"
  external_ocr_available :: bool
  image_to_string :: "'i image_scheme \<Rightarrow> error + string"
  language_detection_available :: bool
  detect :: "string \<Rightarrow> error + string"
  json_encode :: "bool \<Rightarrow> nat \<Rightarrow> pyval \<Rightarrow> string"

definition meta_summary ::
  "(pyfloat \<Rightarrow> string) \<Rightarrow> string \<Rightarrow> 'i image_scheme \<Rightarrow> (string \<times> pyval) list
     \<Rightarrow> (string \<times> pyval) list \<Rightarrow> (pyfloat \<times> pyfloat) option \<Rightarrow> string \<Rightarrow> string option
     \<Rightarrow> (string \<times> pyval) list" where
  \<comment> \<open>lines 180 to 191 and 236 to 237\<close>
  "meta_summary repr name img exif iptc gps ocr_text lang_code =
     (let summary =
        [(''file_name'', PStr name),
         (''format'', format img),
         (''size'', str_dict [(''width'', PInt (width img)), (''height'', PInt (height img))]),
         (''mode'', mode img),
         (''exif'', str_dict exif),
         (''iptc'', str_dict iptc)];
          summary' =
            (case gps of
               Some (lat, lon) \<Rightarrow>
                 dict_set ''gps''
                   (str_dict [(''latitude'', PFloat lat), (''longitude'', PFloat lon),
                      (''maps_link'', PStr (google_maps_link repr lat lon))]) summary
             | None \<Rightarrow> summary)
      in dict_set ''ocr_language'' (case lang_code of None \<Rightarrow> PNone | Some c \<Rightarrow> PStr c)
           (dict_set ''ocr_text'' (PStr ocr_text) summary'))"

definition main ::
  "'i env \<Rightarrow> bool \<Rightarrow> bool \<Rightarrow> string \<Rightarrow> string \<Rightarrow> error + string \<times> string" where
  \<comment> \<open>\<^verbatim>\<open>main\<close> for an uploaded file with the given name and content: the file name and the
      data handed to the download button. The widgets that only display are left out.\<close>
  "main env ocr_enabled lang_detect_enabled name image_bytes =
     bind (image_open env image_bytes) (\<lambda>original_image.
     bind (convert_rgb env original_image) (\<lambda>image_rgb.
     bind (decode_exif (TAGS env) original_image) (\<lambda>exif.
     bind (extract_gps_from_exif (parse_float env) exif) (\<lambda>gps.
     bind (extract_iptc (iptc_available env) (IPTCInfo env) (py_str env) image_bytes) (\<lambda>iptc.
     bind (if ocr_enabled \<and> external_ocr_available env
           then perform_ocr (external_ocr_available env) (image_to_string env) image_rgb
           else Inr []) (\<lambda>ocr_text.
     bind (if lang_detect_enabled \<and> strip ocr_text \<noteq> [] \<and> language_detection_available env
           then detect_language (language_detection_available env) (detect env) ocr_text
           else Inr None) (\<lambda>lang_code.
     bind (json_dumps (json_encode env) False 2
             (str_dict (meta_summary (float_repr env) name original_image exif iptc gps
                ocr_text lang_code))) (\<lambda>json_text.
     Inr (export_file_name name, json_text)))))))))"

section \<open>Notions used in the statements\<close>

fun fge0 :: "pyfloat \<Rightarrow> bool" where
  \<comment> \<open>Python's \<open>x >= 0\<close>\<close>
  "fge0 (Fin q) = (0 \<le> q)"
| "fge0 NZero = True"
| "fge0 PInf = True"
| "fge0 _ = False"

fun fle0 :: "pyfloat \<Rightarrow> bool" where
  \<comment> \<open>Python's \<open>x <= 0\<close>\<close>
  "fle0 (Fin q) = (q \<le> 0)"
| "fle0 NZero = True"
| "fle0 NInf = True"
| "fle0 _ = False"

definition in_range :: "rat \<Rightarrow> rat \<Rightarrow> pyfloat \<Rightarrow> bool" where
  \<comment> \<open>Python's \<open>lo <= x <= hi\<close>\<close>
  "in_range lo hi x =
     (case x of Fin q \<Rightarrow> lo \<le> q \<and> q \<le> hi | NZero \<Rightarrow> lo \<le> 0 \<and> 0 \<le> hi | _ \<Rightarrow> False)"

definition rounded7 :: "pyfloat \<Rightarrow> bool" where
  \<comment> \<open>a float that \<open>round(_, 7)\<close> can return: the float nearest to a decimal with at most
      7 fractional digits, a negative zero, an infinity or a NaN\<close>
  "rounded7 x =
     ((\<exists>k::int. x = to_binary64 (of_int k / 10 ^ 7))
      \<or> x = NZero \<or> x = PInf \<or> x = NInf \<or> x = NaN)"

fun nonneg_component :: "pyval \<Rightarrow> bool" where
  \<comment> \<open>a degree, minute or second value that is not negative: an int, a finite float, or a
      pair of a numerator and a positive denominator\<close>
  "nonneg_component (PInt n) = (0 \<le> n)"
| "nonneg_component (PFloat (Fin q)) = (0 \<le> q)"
| "nonneg_component (PTuple [PInt n, PInt d]) = (0 \<le> n \<and> 0 < d)"
| "nonneg_component _ = False"

definition rational_value :: "(pyval \<Rightarrow> pyfloat option) \<Rightarrow> pyval \<Rightarrow> pyfloat" where
  \<comment> \<open>the float that \<open>rational_to_float\<close> returns\<close>
  "rational_value parse v = (case rational_to_float parse v of Inr f \<Rightarrow> f | Inl e \<Rightarrow> Fin 0)"

definition decimal_degrees ::
  "(pyval \<Rightarrow> pyfloat option) \<Rightarrow> pyval \<Rightarrow> pyval \<Rightarrow> pyval \<Rightarrow> pyfloat" where
  \<comment> \<open>\<open>round(deg + min / 60 + sec / 3600, 7)\<close> in float arithmetic\<close>
  "decimal_degrees parse d m s =
     round7 (fadd (fadd (rational_value parse d) (fdiv (rational_value parse m) (Fin 60)))
               (fdiv (rational_value parse s) (Fin 3600)))"

definition ref_text :: "pyval option \<Rightarrow> string \<Rightarrow> string option" where
  \<comment> \<open>the text of a reference entry: the default when the entry is absent, the decoded
      text of a \<open>bytes\<close> value\<close>
  "ref_text r dflt =
     (case r of
        None \<Rightarrow> Some dflt
      | Some (PStr s) \<Rightarrow> Some s
      | Some (PBytes bs) \<Rightarrow> Some (decode_ignore bs)
      | _ \<Rightarrow> None)"

definition signed :: "string \<Rightarrow> string \<Rightarrow> pyfloat \<Rightarrow> pyfloat" where
  \<comment> \<open>\<open>x\<close>, negated when the reference is, up to case, the letter \<open>neg\<close>\<close>
  "signed ref neg x = (if str_upper ref = neg then fneg x else x)"

definition no_parse :: "pyval \<Rightarrow> pyfloat option" where
  "no_parse v = None"

definition example_exif :: "(string \<times> pyval) list" where
  \<comment> \<open>\<open>GPSLatitude = (40, 26, 46.302)\<close>, \<open>N\<close>, \<open>GPSLongitude = (79, 56, 55.163)\<close>, \<open>W\<close>;
      the two fractions are the floats \<open>46.302\<close> and \<open>55.163\<close>\<close>
  "example_exif =
     [(''GPSInfo'', PDict
        [(PInt 1, PStr ''N''),
         (PInt 2, PTuple [PInt 40, PInt 26,
            PFloat (Fin (6516427185828397 / 140737488355328))]),
         (PInt 3, PStr ''W''),
         (PInt 4, PTuple [PInt 79, PInt 56,
            PFloat (Fin (3881751035072479 / 70368744177664))])])]"

definition gps_exif :: "pyval \<Rightarrow> pyval \<Rightarrow> pyval \<Rightarrow> pyval \<Rightarrow> (string \<times> pyval) list" where
  \<comment> \<open>a metadata mapping whose GPS sub-mapping holds the four entries\<close>
  "gps_exif lat_ref lat lon_ref lon =
     [(''GPSInfo'', PDict [(PInt 1, lat_ref), (PInt 2, lat), (PInt 3, lon_ref), (PInt 4, lon)])]"

definition example_tags :: "int \<rightharpoonup> string" where
  "example_tags = [271 \<mapsto> ''Make'']"

definition example_image :: image where
  \<comment> \<open>an image whose accessor returns the tags 271 (\<open>Make\<close>) and 59932 (not in the table)\<close>
  "example_image =
     \<lparr>getexif = Some (Inr (Some [(271, PStr ''Canon''), (59932, PInt 1)])),
      format = PStr ''JPEG'', width = 4, height = 3, mode = PStr ''RGB''\<rparr>"

definition broken_image :: image where
  \<comment> \<open>an image whose accessor raises\<close>
  "broken_image =
     \<lparr>getexif = Some (Inl (LibraryError ''not a TIFF file'')),
      format = PStr ''JPEG'', width = 4, height = 3, mode = PStr ''RGB''\<rparr>"

definition plain_image :: image where
  \<comment> \<open>an image without the accessor\<close>
  "plain_image =
     \<lparr>getexif = None, format = PStr ''PNG'', width = 4, height = 3, mode = PStr ''RGB''\<rparr>"

definition example_info :: iptc_info where
  \<comment> \<open>a caption object whose lookup raises\<close>
  "example_info =
     \<lparr>info_keys = [PInt 0], info_iter_error = None, info_getitem = (\<lambda>k. Inl KeyError)\<rparr>"

definition gps_tags :: "int \<rightharpoonup> string" where
  \<comment> \<open>two entries of Pillow's table\<close>
  "gps_tags = [34853 \<mapsto> ''GPSInfo'', 36864 \<mapsto> ''ExifVersion'']"

definition gps_image :: image where
  \<comment> \<open>an image whose accessor returns the GPS entries of the example\<close>
  "gps_image =
     \<lparr>getexif = Some (Inr (Some [(34853, exif_get example_exif ''GPSInfo'')])),
      format = PStr ''JPEG'', width = 4, height = 3, mode = PStr ''RGB''\<rparr>"

definition version_image :: image where
  \<comment> \<open>the same with the entry \<open>ExifVersion = b"0230"\<close>, which Pillow returns as \<open>bytes\<close>\<close>
  "version_image =
     \<lparr>getexif = Some (Inr (Some [(36864, PBytes ''0230''),
        (34853, exif_get example_exif ''GPSInfo'')])),
      format = PStr ''JPEG'', width = 4, height = 3, mode = PStr ''RGB''\<rparr>"

definition version_exif :: "(string \<times> pyval) list" where
  "version_exif =
     [(''ExifVersion'', PBytes ''0230''), (''GPSInfo'', exif_get example_exif ''GPSInfo'')]"

definition example_repr :: "pyfloat \<Rightarrow> string" where
  \<comment> \<open>\<open>repr\<close> on the two floats of the example\<close>
  "example_repr f =
     (if f = Fin (2846147948914913 / 70368744177664) then ''40.446195''
      else if f = Fin (- (703235818694945 / 8796093022208)) then ''-79.9486564''
      else ''0.0'')"

definition export_env :: "(bool \<Rightarrow> nat \<Rightarrow> pyval \<Rightarrow> string) \<Rightarrow> image \<Rightarrow> unit env" where
  \<comment> \<open>an environment without the optional libraries, in which the upload opens as the
      given image\<close>
  "export_env encode img =
     \<lparr>parse_float = no_parse, float_repr = example_repr, py_str = (\<lambda>v. Inr []),
      TAGS = gps_tags, image_open = (\<lambda>b. Inr img), convert_rgb = Inr,
      iptc_available = False, IPTCInfo = (\<lambda>b. Inl (LibraryError [])),
      external_ocr_available = False, image_to_string = (\<lambda>i. Inr []),
      language_detection_available = False, detect = (\<lambda>t. Inr []),
      json_encode = encode\<rparr>"

section \<open>The float model\<close>

lemma bind_simps [simp]: "bind (Inl e) f = Inl e" "bind (Inr x) f = f x"
  by (simp_all add: bind_def)

lemma catch_simps [simp]: "catch (Inl e) h = h e" "catch (Inr x) h = Inr x"
  by (simp_all add: catch_def)

lemma catch_total: "(\<And>e. \<exists>y. h e = Inr y) \<Longrightarrow> \<exists>y. catch m h = Inr y"
  by (cases m) auto

lemma bit_length_upper: "n < 2 ^ bit_length n"
proof (induction n rule: bit_length.induct)
  case (1 n)
  show ?case
  proof (cases "n = 0")
    case True
    then show ?thesis by (simp add: bit_length.simps)
  next
    case False
    with 1 have ih: "n div 2 < 2 ^ bit_length (n div 2)" by simp
    have "bit_length n = Suc (bit_length (n div 2))"
      using False by (simp add: bit_length.simps)
    with ih show ?thesis by simp
  qed
qed

lemma bit_length_lower: "0 < n \<Longrightarrow> 2 ^ bit_length n \<le> 2 * n"
proof (induction n rule: bit_length.induct)
  case (1 n)
  then have n0: "n \<noteq> 0" by simp
  have eq: "bit_length n = Suc (bit_length (n div 2))"
    using n0 by (simp add: bit_length.simps)
  show ?case
  proof (cases "n div 2 = 0")
    case True
    then have "n = 1" using n0 by linarith
    then show ?thesis by (simp add: bit_length.simps)
  next
    case False
    with 1 n0 have "2 ^ bit_length (n div 2) \<le> 2 * (n div 2)" by simp
    with eq show ?thesis by simp
  qed
qed

lemma bit_length_pos: "0 < n \<Longrightarrow> 0 < bit_length n"
  by (subst bit_length.simps) simp

lemma bit_length_pred: "0 < n \<Longrightarrow> 2 ^ (bit_length n - 1) \<le> n"
proof -
  assume n: "0 < n"
  then obtain k where k: "bit_length n = Suc k"
    using bit_length_pos [OF n] by (cases "bit_length n") auto
  from bit_length_lower [OF n] k show ?thesis by simp
qed

lemma pow2_powi: "pow2 k = 2 powi k"
  by (simp add: pow2_def power_int_def power_one_over)

lemma pow2_pos: "0 < pow2 k"
  by (simp add: pow2_def)

lemma pow2_mono: "a \<le> b \<Longrightarrow> pow2 a \<le> pow2 b"
  by (simp add: pow2_powi power_int_increasing)

lemma pow2_less_cancel: "pow2 a < pow2 b \<Longrightarrow> a < b"
  using pow2_mono [of b a] by linarith

lemma pow2_nat: "pow2 (int n) = 2 ^ n"
  by (simp add: pow2_def)

lemma pow2_neg_nat: "pow2 (- int n) = 1 / 2 ^ n"
  by (auto simp: pow2_def)

lemma floor_log2_ge1_lower: assumes "1 \<le> q" shows "pow2 (floor_log2 q) \<le> q"
proof -
  define n where "n = nat \<lfloor>q\<rfloor>"
  have n: "0 < n" using assms by (simp add: n_def)
  have nq: "of_nat n \<le> q" using assms by (simp add: n_def)
  have fl: "floor_log2 q = int (bit_length n - 1)"
    using assms bit_length_pos [OF n] by (simp add: floor_log2_def n_def)
  have "(2::rat) ^ (bit_length n - 1) = of_nat (2 ^ (bit_length n - 1))" by simp
  also have "\<dots> \<le> of_nat n" using bit_length_pred [OF n] by (simp only: of_nat_le_iff)
  finally have "(2::rat) ^ (bit_length n - 1) \<le> q" using nq by linarith
  then show ?thesis by (simp only: fl pow2_nat)
qed

lemma floor_log2_ge1_upper: assumes "1 \<le> q" shows "q < pow2 (floor_log2 q + 1)"
proof -
  define n where "n = nat \<lfloor>q\<rfloor>"
  have n: "0 < n" using assms by (simp add: n_def)
  have qn: "q < of_nat n + 1" using assms by (simp add: n_def) linarith
  have fl: "floor_log2 q + 1 = int (bit_length n)"
    using assms by (simp add: floor_log2_def n_def)
  have "n + 1 \<le> 2 ^ bit_length n" using bit_length_upper [of n] by simp
  then have "(of_nat (n + 1) :: rat) \<le> of_nat (2 ^ bit_length n)" by (simp only: of_nat_le_iff)
  then have "(of_nat n :: rat) + 1 \<le> 2 ^ bit_length n" by simp
  with qn have "q < 2 ^ bit_length n" by linarith
  then show ?thesis by (simp only: fl pow2_nat)
qed

lemma ceiling_pred_nat:
  assumes "1 < (x::rat)" shows "(of_nat (nat (\<lceil>x\<rceil> - 1)) :: rat) = of_int \<lceil>x\<rceil> - 1"
proof -
  have "2 \<le> \<lceil>x\<rceil>" using assms by (simp add: le_ceiling_iff)
  then have "0 \<le> \<lceil>x\<rceil> - 1" by simp
  then have "(of_nat (nat (\<lceil>x\<rceil> - 1)) :: rat) = of_int (\<lceil>x\<rceil> - 1)" by (rule of_nat_nat)
  then show ?thesis by simp
qed

lemma floor_log2_lt1_lower: assumes "0 < q" "q < 1" shows "pow2 (floor_log2 q) \<le> q"
proof -
  define m where "m = nat (\<lceil>1 / q\<rceil> - 1)"
  have r: "1 < 1 / q" using assms by simp
  have rc: "1 / q \<le> of_int \<lceil>1 / q\<rceil>" by simp
  have mc: "(of_nat m :: rat) = of_int \<lceil>1 / q\<rceil> - 1"
    unfolding m_def by (rule ceiling_pred_nat [OF r])
  have fl: "floor_log2 q = - int (bit_length m)"
    using assms by (simp add: floor_log2_def m_def)
  have "m + 1 \<le> 2 ^ bit_length m" using bit_length_upper [of m] by simp
  then have "(of_nat (m + 1) :: rat) \<le> of_nat (2 ^ bit_length m)" by (simp only: of_nat_le_iff)
  then have "(of_nat m :: rat) + 1 \<le> 2 ^ bit_length m" by simp
  with rc mc have "1 / q \<le> 2 ^ bit_length m" by linarith
  then have "1 / 2 ^ bit_length m \<le> q" using assms by (simp add: field_simps)
  then show ?thesis by (simp only: fl pow2_neg_nat)
qed

lemma floor_log2_lt1_upper: assumes "0 < q" "q < 1" shows "q < pow2 (floor_log2 q + 1)"
proof -
  define m where "m = nat (\<lceil>1 / q\<rceil> - 1)"
  have r: "1 < 1 / q" using assms by simp
  then have c: "2 \<le> \<lceil>1 / q\<rceil>" by (simp add: le_ceiling_iff)
  then have m: "0 < m" by (simp add: m_def)
  have mc: "(of_nat m :: rat) = of_int \<lceil>1 / q\<rceil> - 1"
    unfolding m_def by (rule ceiling_pred_nat [OF r])
  have "of_int \<lceil>1 / q\<rceil> - 1 < 1 / q" using ceiling_correct [of "1 / q"] by blast
  with mc have mr: "of_nat m < 1 / q" by simp
  have fl: "floor_log2 q + 1 = - int (bit_length m - 1)"
    using assms bit_length_pos [OF m] by (simp add: floor_log2_def m_def)
  have "(2::rat) ^ (bit_length m - 1) = of_nat (2 ^ (bit_length m - 1))" by simp
  also have "\<dots> \<le> of_nat m" using bit_length_pred [OF m] by (simp only: of_nat_le_iff)
  finally have "2 ^ (bit_length m - 1) < 1 / q" using mr by linarith
  then have "q < 1 / 2 ^ (bit_length m - 1)" using assms by (simp add: field_simps)
  then show ?thesis by (simp only: fl pow2_neg_nat)
qed

lemma floor_log2_lower: "0 < q \<Longrightarrow> pow2 (floor_log2 q) \<le> q"
  using floor_log2_ge1_lower [of q] floor_log2_lt1_lower [of q] by (cases "1 \<le> q") simp_all

lemma floor_log2_upper: "0 < q \<Longrightarrow> q < pow2 (floor_log2 q + 1)"
  using floor_log2_ge1_upper [of q] floor_log2_lt1_upper [of q] by (cases "1 \<le> q") simp_all

lemma floor_log2_unique:
  assumes "pow2 e \<le> q" "q < pow2 (e + 1)" shows "floor_log2 q = e"
proof -
  have q: "0 < q" using assms(1) pow2_pos [of e] by linarith
  have "pow2 e < pow2 (floor_log2 q + 1)"
    using floor_log2_upper [OF q] assms(1) by linarith
  then have a: "e < floor_log2 q + 1" by (rule pow2_less_cancel)
  have "pow2 (floor_log2 q) < pow2 (e + 1)"
    using floor_log2_lower [OF q] assms(2) by linarith
  then have b: "floor_log2 q < e + 1" by (rule pow2_less_cancel)
  from a b show ?thesis by linarith
qed

lemma round_pos_at:
  assumes "pow2 e \<le> q" "q < pow2 (e + 1)"
  shows "round_pos q =
     (let e' = max (e - 52) (- 1074);
          v = of_int (round_half_even (q / pow2 e')) * pow2 e'
      in if 2 ^ 1024 \<le> v then PInf else Fin v)"
  by (simp add: round_pos_def floor_log2_unique [OF assms])

lemma floor_rat_numeral: "\<lfloor>numeral a / numeral b :: rat\<rfloor> = numeral a div numeral b"
  by (metis floor_divide_of_int_eq of_int_numeral)

lemma floor_rat_one_numeral: "\<lfloor>1 / numeral b :: rat\<rfloor> = 1 div numeral b"
  by (metis floor_divide_of_int_eq of_int_numeral of_int_1)

lemmas float_eval =
  pow2_def round_half_even_def Let_def floor_rat_numeral floor_rat_one_numeral

lemma to_binary64_at:
  assumes "pow2 e \<le> q" "q < pow2 (e + 1)"
  shows "to_binary64 q =
     (let e' = max (e - 52) (- 1074);
          v = of_int (round_half_even (q / pow2 e')) * pow2 e'
      in if 2 ^ 1024 \<le> v then PInf else Fin v)"
proof -
  have "0 < q" using assms(1) pow2_pos [of e] by linarith
  then show ?thesis by (simp add: to_binary64_def round_pos_at [OF assms])
qed

lemma b64_1: "to_binary64 (1) = Fin (1)"
  by (simp add: to_binary64_at [of "0"] float_eval)

lemma b64_2: "to_binary64 (2) = Fin (2)"
  by (simp add: to_binary64_at [of "1"] float_eval)

lemma b64_40: "to_binary64 (40) = Fin (40)"
  by (simp add: to_binary64_at [of "5"] float_eval)

lemma b64_26: "to_binary64 (26) = Fin (26)"
  by (simp add: to_binary64_at [of "4"] float_eval)

lemma b64_79: "to_binary64 (79) = Fin (79)"
  by (simp add: to_binary64_at [of "6"] float_eval)

lemma b64_56: "to_binary64 (56) = Fin (56)"
  by (simp add: to_binary64_at [of "5"] float_eval)

lemma b64_100: "to_binary64 (100) = Fin (100)"
  by (simp add: to_binary64_at [of "6"] float_eval)

lemma b64_200: "to_binary64 (200) = Fin (200)"
  by (simp add: to_binary64_at [of "7"] float_eval)

lemma b64_half: "to_binary64 (1 / 2) = Fin (1 / 2)"
  by (simp add: to_binary64_at [of "-1"] float_eval)

lemma ex_lat_min: "to_binary64 (13 / 30) = Fin (1951559838527215 / 4503599627370496)"
  by (simp add: to_binary64_at [of "-2"] float_eval)

lemma ex_lat_sec: "to_binary64 (6516427185828397 / 506654958079180800) = Fin (1853561510635633 / 144115188075855872)"
  by (simp add: to_binary64_at [of "-7"] float_eval)

lemma ex_lat_dm: "to_binary64 (182095544933347055 / 4503599627370496) = Fin (5690485779167095 / 140737488355328)"
  by (simp add: to_binary64_at [of "5"] float_eval)

lemma ex_lat_dms: "to_binary64 (5828910999377740913 / 144115188075855872) = Fin (5692295897829825 / 140737488355328)"
  by (simp add: to_binary64_at [of "5"] float_eval)

lemma ex_lat_round: "round7 (Fin (5692295897829825 / 140737488355328)) = Fin (2846147948914913 / 70368744177664)"
  by (simp add: round7_def to_binary64_at [of "5"] float_eval)

lemma ex_lon_min: "to_binary64 (14 / 15) = Fin (4203359652212463 / 4503599627370496)"
  by (simp add: to_binary64_at [of "-1"] float_eval)

lemma ex_lon_sec: "to_binary64 (3881751035072479 / 253327479039590400) = Fin (2208285033285677 / 144115188075855872)"
  by (simp add: to_binary64_at [of "-7"] float_eval)

lemma ex_lon_dm: "to_binary64 (359987730214481647 / 4503599627370496) = Fin (1406202071150319 / 17592186044416)"
  by (simp add: to_binary64_at [of "6"] float_eval)

lemma ex_lon_dms: "to_binary64 (11521815651896698925 / 144115188075855872) = Fin (5625886548777685 / 70368744177664)"
  by (simp add: to_binary64_at [of "6"] float_eval)

lemma ex_lon_round: "round7 (Fin (5625886548777685 / 70368744177664)) = Fin (703235818694945 / 8796093022208)"
  by (simp add: round7_def to_binary64_at [of "6"] float_eval)

lemma ex_lat_decimal: "to_binary64 (8089239 / 200000) = Fin (2846147948914913 / 70368744177664)"
  by (simp add: to_binary64_at [of "5"] float_eval)

lemma ex_lon_decimal: "to_binary64 (199871641 / 2500000) = Fin (703235818694945 / 8796093022208)"
  by (simp add: to_binary64_at [of "6"] float_eval)

lemma round7_100: "round7 (Fin (100)) = Fin (100)"
  by (simp add: round7_def to_binary64_at [of "6"] float_eval)

lemma round7_200: "round7 (Fin (200)) = Fin (200)"
  by (simp add: round7_def to_binary64_at [of "7"] float_eval)

lemma round_half_even_of_int: "round_half_even (of_int k) = k"
  by (simp add: round_half_even_def)

lemma round_half_even_minus: "round_half_even (- q) = - round_half_even q"
proof (cases "q = of_int \<lfloor>q\<rfloor>")
  case True
  then obtain k where k: "q = of_int k" ..
  have "round_half_even (of_int (- k)) = - k" by (rule round_half_even_of_int)
  then show ?thesis by (simp add: k round_half_even_of_int)
next
  case False
  then have fl: "\<lfloor>- q\<rfloor> = - \<lfloor>q\<rfloor> - 1"
    by (simp add: floor_minus ceiling_altdef)
  show ?thesis
    unfolding round_half_even_def Let_def fl
    by (auto simp: algebra_simps)
qed

lemma round_half_even_nonneg: "0 \<le> q \<Longrightarrow> 0 \<le> round_half_even q"
  by (auto simp: round_half_even_def Let_def)

lemma round_pos_shape:
  assumes "0 < q" shows "round_pos q = PInf \<or> (\<exists>v. round_pos q = Fin v \<and> 0 \<le> v)"
proof -
  define e where "e = max (floor_log2 q - 52) (- 1074)"
  have "0 \<le> q / pow2 e" using assms pow2_pos [of e] by simp
  then have "0 \<le> round_half_even (q / pow2 e)" by (rule round_half_even_nonneg)
  then have "0 \<le> (of_int (round_half_even (q / pow2 e)) :: rat) * pow2 e"
    using pow2_pos [of e] by simp
  then show ?thesis by (simp add: round_pos_def Let_def e_def)
qed

lemma to_binary64_shape:
  assumes "0 \<le> q" shows "to_binary64 q = PInf \<or> (\<exists>v. to_binary64 q = Fin v \<and> 0 \<le> v)"
  using assms round_pos_shape [of q] by (cases "q = 0") (auto simp: to_binary64_def)

lemma to_binary64_nonneg: "0 \<le> q \<Longrightarrow> fge0 (to_binary64 q)"
  using to_binary64_shape [of q] by auto

lemma fneg_fneg: "fneg (fneg x) = x"
  by (cases x) auto

lemma to_binary64_minus: "q \<noteq> 0 \<Longrightarrow> to_binary64 (- q) = fneg (to_binary64 q)"
  by (cases "0 < q") (auto simp: to_binary64_def fneg_fneg)

lemma round7_fneg: "round7 (fneg x) = fneg (round7 x)"
proof (cases x)
  case (Fin q)
  show ?thesis
  proof (cases "q = 0")
    case True
    with Fin show ?thesis by (simp add: round7_def round_half_even_def)
  next
    case False
    have "round_half_even (- q * 10 ^ 7) = - round_half_even (q * 10 ^ 7)"
      using round_half_even_minus [of "q * 10 ^ 7"] by simp
    moreover have "to_binary64 (of_int (- k) / 10 ^ 7) = fneg (to_binary64 (of_int k / 10 ^ 7))"
      if "k \<noteq> 0" for k
      using that to_binary64_minus [of "of_int k / 10 ^ 7"] by simp
    ultimately show ?thesis using Fin False by (auto simp: round7_def Let_def)
  qed
qed (simp_all add: round7_def round_half_even_def)

lemma round7_rounded: "rounded7 (round7 x)"
proof (cases x)
  case (Fin q)
  have "to_binary64 (of_int 0 / 10 ^ 7) = Fin 0" by (simp add: to_binary64_def)
  then have "rounded7 (Fin 0)" unfolding rounded7_def by metis
  then show ?thesis using Fin by (auto simp: round7_def Let_def rounded7_def)
qed (simp_all add: round7_def rounded7_def)

lemma fadd_nonneg: "fge0 x \<Longrightarrow> fge0 y \<Longrightarrow> fge0 (fadd x y)"
  by (cases x; cases y) (simp_all add: to_binary64_nonneg)

lemma fdiv_nonneg: "fge0 x \<Longrightarrow> 0 < b \<Longrightarrow> fge0 (fdiv x (Fin b))"
  by (cases x) (simp_all add: to_binary64_nonneg)

lemma round7_nonneg: "fge0 x \<Longrightarrow> fge0 (round7 x)"
proof (cases x)
  case (Fin q)
  assume "fge0 x"
  with Fin have q: "0 \<le> q" by simp
  then have "0 \<le> round_half_even (q * 10 ^ 7)" by (simp add: round_half_even_nonneg)
  then have "fge0 (to_binary64 (of_int (round_half_even (q * 10 ^ 7)) / 10 ^ 7))"
    by (simp add: to_binary64_nonneg)
  with Fin q show ?thesis by (simp add: round7_def Let_def)
qed (simp_all add: round7_def)

lemma fneg_nonpos: "fge0 x \<Longrightarrow> fle0 (fneg x)"
  by (cases x) auto

section \<open>The rational conversion\<close>

lemma rational_to_float_value: "rational_to_float parse v = Inr (rational_value parse v)"
  by (cases "rational_to_float_try parse v") (simp_all add: rational_to_float_def rational_value_def)

lemma float_of_int_shape:
  assumes "0 \<le> n"
  shows "float_of_int n = Inl OverflowError \<or> (\<exists>v. float_of_int n = Inr (Fin v) \<and> 0 \<le> v)"
  using to_binary64_shape [of "of_int n"] assms by (auto simp: float_of_int_def)

lemma rational_value_int: "to_binary64 (of_int n) = Fin q \<Longrightarrow> rational_value parse (PInt n) = Fin q"
  by (simp add: rational_value_def rational_to_float_def float_of_int_def)

lemma rational_value_float: "rational_value parse (PFloat f) = f"
  by (simp add: rational_value_def rational_to_float_def)

lemma rational_value_nonneg:
  assumes "nonneg_component v" shows "fge0 (rational_value parse v)"
  using assms
proof (cases v rule: nonneg_component.cases)
  case (1 n)
  with assms float_of_int_shape [of n] show ?thesis
    by (auto simp: rational_value_def rational_to_float_def)
next
  case (2 q)
  with assms show ?thesis by (simp add: rational_value_float)
next
  case (3 n d)
  with assms have nd: "0 \<le> n" "0 < d" by simp_all
  from float_of_int_shape [of n] float_of_int_shape [of d] nd 3 show ?thesis
    by (auto simp: rational_value_def rational_to_float_def py_truediv_def to_binary64_nonneg)
qed simp_all

section \<open>The resolver on a GPS sub-mapping\<close>

lemma str_upper_literals:
  "str_upper ''N'' = ''N''" "str_upper ''E'' = ''E''" "str_upper ''S'' = ''S''"
  "str_upper ''W'' = ''W''" "str_upper ''s'' = ''S''" "str_upper ''w'' = ''W''"
  "str_upper ''X'' = ''X''" "str_upper [] = []"
  by (simp_all add: str_upper_def utf8_len_def upper_char_def ascii_upper_def)

lemma ref_text_decode:
  "ref_text r dflt = Some s \<Longrightarrow> decode_ref (case r of None \<Rightarrow> PStr dflt | Some v \<Rightarrow> v) = PStr s"
  by (auto simp: ref_text_def decode_ref_def split: option.splits pyval.splits)

lemma extract_gps_try_triples:
  assumes "decode_ref lat_ref = PStr r1" "decode_ref lon_ref = PStr r2"
  shows "extract_gps_try parse lat_ref lon_ref (PTuple [d1, m1, s1]) (PTuple [d2, m2, s2]) =
     Inr (Some (signed r1 ''S'' (decimal_degrees parse d1 m1 s1),
                signed r2 ''W'' (decimal_degrees parse d2 m2 s2)))"
  using assms
  by (simp add: extract_gps_try_def rational_to_float_value py_truediv_def Let_def
        signed_def decimal_degrees_def round7_fneg)

lemma dict_lookup_nonempty: "dict_lookup g k = Some v \<Longrightarrow> g \<noteq> []"
  by auto

lemma extract_gps_dict:
  assumes "map_of exif ''GPSInfo'' = Some (PDict g)"
    "dict_lookup g 2 = Some lv" "dict_lookup g 4 = Some lov" "truthy lv" "truthy lov"
  shows "extract_gps_from_exif parse exif =
     catch (extract_gps_try parse
              (case dict_lookup g 1 of None \<Rightarrow> PStr ''N'' | Some v \<Rightarrow> v)
              (case dict_lookup g 3 of None \<Rightarrow> PStr ''E'' | Some v \<Rightarrow> v) lv lov)
       (\<lambda>e. Inr None)"
  using assms dict_lookup_nonempty [OF assms(2)]
  by (simp add: extract_gps_from_exif_def exif_get_def Let_def)

lemma extract_gps_triples:
  assumes "map_of exif ''GPSInfo'' = Some (PDict g)"
    "dict_lookup g 2 = Some (PTuple [d1, m1, s1])"
    "dict_lookup g 4 = Some (PTuple [d2, m2, s2])"
    "ref_text (dict_lookup g 1) ''N'' = Some r1"
    "ref_text (dict_lookup g 3) ''E'' = Some r2"
  shows "extract_gps_from_exif parse exif =
     Inr (Some (signed r1 ''S'' (decimal_degrees parse d1 m1 s1),
                signed r2 ''W'' (decimal_degrees parse d2 m2 s2)))"
proof -
  have "extract_gps_from_exif parse exif =
     catch (extract_gps_try parse
              (case dict_lookup g 1 of None \<Rightarrow> PStr ''N'' | Some v \<Rightarrow> v)
              (case dict_lookup g 3 of None \<Rightarrow> PStr ''E'' | Some v \<Rightarrow> v)
              (PTuple [d1, m1, s1]) (PTuple [d2, m2, s2]))
       (\<lambda>e. Inr None)"
    by (rule extract_gps_dict [OF assms(1-3)]) simp_all
  also have "\<dots> = Inr (Some (signed r1 ''S'' (decimal_degrees parse d1 m1 s1),
                signed r2 ''W'' (decimal_degrees parse d2 m2 s2)))"
    by (simp add: extract_gps_try_triples [OF ref_text_decode [OF assms(4)] ref_text_decode [OF assms(5)]])
  finally show ?thesis .
qed

lemma extract_gps_try_canonical:
  "extract_gps_try parse (PStr r1) (PStr r2) lv lov =
   extract_gps_try parse (PStr (if str_upper r1 = ''S'' then ''S'' else ''N''))
     (PStr (if str_upper r2 = ''W'' then ''W'' else ''E'')) lv lov"
  by (simp add: extract_gps_try_def decode_ref_def str_upper_literals)

lemma extract_gps_try_rounded:
  "extract_gps_try parse a b lv lov = Inr (Some (lat, lon)) \<Longrightarrow> rounded7 lat \<and> rounded7 lon"
  by (auto simp: extract_gps_try_def bind_def Let_def round7_rounded split: sum.splits)

lemma example_lat:
  "decimal_degrees no_parse (PInt 40) (PInt 26) (PFloat (Fin (6516427185828397 / 140737488355328)))
     = Fin (2846147948914913 / 70368744177664)"
  by (simp add: decimal_degrees_def rational_value_float rational_value_int [of 40 40]
        rational_value_int [of 26 26] b64_40 b64_26
        ex_lat_min ex_lat_sec ex_lat_dm ex_lat_dms ex_lat_round)

lemma example_lon:
  "decimal_degrees no_parse (PInt 79) (PInt 56) (PFloat (Fin (3881751035072479 / 70368744177664)))
     = Fin (703235818694945 / 8796093022208)"
  by (simp add: decimal_degrees_def rational_value_float rational_value_int [of 79 79]
        rational_value_int [of 56 56] b64_79 b64_56
        ex_lon_min ex_lon_sec ex_lon_dm ex_lon_dms ex_lon_round)

lemma out_of_range_value:
  "extract_gps_from_exif no_parse
     (gps_exif (PStr ''N'') (PTuple [PInt 100, PInt 0, PInt 0])
        (PStr ''E'') (PTuple [PInt 200, PInt 0, PInt 0])) = Inr (Some (Fin 100, Fin 200))"
proof -
  have z: "rational_value no_parse (PInt 0) = Fin 0"
    by (rule rational_value_int) (simp add: to_binary64_def)
  have a: "decimal_degrees no_parse (PInt 100) (PInt 0) (PInt 0) = Fin 100"
    by (simp add: decimal_degrees_def z rational_value_int [of 100 100] b64_100 round7_100)
  have b: "decimal_degrees no_parse (PInt 200) (PInt 0) (PInt 0) = Fin 200"
    by (simp add: decimal_degrees_def z rational_value_int [of 200 200] b64_200 round7_200)
  have "extract_gps_from_exif no_parse
     (gps_exif (PStr ''N'') (PTuple [PInt 100, PInt 0, PInt 0])
        (PStr ''E'') (PTuple [PInt 200, PInt 0, PInt 0])) =
     Inr (Some (signed ''N'' ''S'' (decimal_degrees no_parse (PInt 100) (PInt 0) (PInt 0)),
                signed ''E'' ''W'' (decimal_degrees no_parse (PInt 200) (PInt 0) (PInt 0))))"
    by (rule extract_gps_triples [where g = "[(PInt 1, PStr ''N''), (PInt 2, PTuple [PInt 100, PInt 0, PInt 0]),
          (PInt 3, PStr ''E''), (PInt 4, PTuple [PInt 200, PInt 0, PInt 0])]"])
       (simp_all add: gps_exif_def ref_text_def)
  then show ?thesis by (simp add: a b signed_def str_upper_literals)
qed

section \<open>Claims about the resolver\<close>

text \<open>
  C1. When the GPS sub-mapping holds a latitude triple and a longitude triple, the
  resolver returns the pair of \<open>round(deg + min / 60 + sec / 3600, 7)\<close> for each, the
  latitude negated when its reference is \<open>S\<close> and the longitude when its reference is
  \<open>W\<close>, up to case; an absent reference is \<open>N\<close> or \<open>E\<close>, and a \<open>bytes\<close> reference is
  decoded first.
\<close>

theorem gps_formula:
  assumes "map_of exif ''GPSInfo'' = Some (PDict g)"
    "dict_lookup g 2 = Some (PTuple [d1, m1, s1])"
    "dict_lookup g 4 = Some (PTuple [d2, m2, s2])"
    "ref_text (dict_lookup g 1) ''N'' = Some r1"
    "ref_text (dict_lookup g 3) ''E'' = Some r2"
  shows "extract_gps_from_exif parse exif =
     Inr (Some (signed r1 ''S'' (decimal_degrees parse d1 m1 s1),
                signed r2 ''W'' (decimal_degrees parse d2 m2 s2)))"
  by (rule extract_gps_triples [OF assms])

text \<open>
  The example of the specification: the result is the pair of the floats nearest to
  \<open>40.446195\<close> and \<open>-79.9486564\<close>.
\<close>

theorem gps_formula_example:
  "extract_gps_from_exif no_parse example_exif =
     Inr (Some (Fin (2846147948914913 / 70368744177664),
                Fin (- (703235818694945 / 8796093022208))))
   \<and> to_binary64 (40446195 / 10 ^ 6) = Fin (2846147948914913 / 70368744177664)
   \<and> to_binary64 (- (799486564 / 10 ^ 7)) = Fin (- (703235818694945 / 8796093022208))"
proof -
  have "extract_gps_from_exif no_parse example_exif =
     Inr (Some (signed ''N'' ''S'' (decimal_degrees no_parse (PInt 40) (PInt 26)
                   (PFloat (Fin (6516427185828397 / 140737488355328)))),
                signed ''W'' ''W'' (decimal_degrees no_parse (PInt 79) (PInt 56)
                   (PFloat (Fin (3881751035072479 / 70368744177664))))))"
    by (rule gps_formula [where g = "[(PInt 1, PStr ''N''),
         (PInt 2, PTuple [PInt 40, PInt 26, PFloat (Fin (6516427185828397 / 140737488355328))]),
         (PInt 3, PStr ''W''),
         (PInt 4, PTuple [PInt 79, PInt 56, PFloat (Fin (3881751035072479 / 70368744177664))])]"])
       (simp_all add: example_exif_def ref_text_def)
  then show ?thesis
    by (simp add: example_lat example_lon signed_def str_upper_literals
          to_binary64_minus ex_lat_decimal ex_lon_decimal)
qed

text \<open>
  C2. A GPS entry that is not a mapping makes the resolver raise: the membership test of
  line 71 is outside the \<^verbatim>\<open>try\<close> of lines 80 to 102, so the TypeError of \<open>2 in 5\<close>
  leaves the function.
\<close>

theorem extract_gps_non_mapping_raises:
  "extract_gps_from_exif parse [(''GPSInfo'', PInt 5)] = Inl TypeError"
  by (simp add: extract_gps_from_exif_def exif_get_def)

theorem extract_gps_non_mapping_raises_witness:
  "extract_gps_from_exif no_parse [(''GPSInfo'', PInt 5)] = Inl TypeError"
  by (rule extract_gps_non_mapping_raises)

text \<open>
  With a GPS entry that is a mapping, or one that is absent or falsy, nothing is raised,
  and a missing latitude or longitude entry gives an absent result.
\<close>

lemma extract_gps_dict_no_raise:
  "exif_get exif ''GPSInfo'' = PDict g \<Longrightarrow> \<exists>r. extract_gps_from_exif parse exif = Inr r"
  by (simp add: extract_gps_from_exif_def Let_def catch_total)

lemma extract_gps_falsy_no_raise:
  "\<not> truthy (exif_get exif ''GPSInfo'') \<Longrightarrow> extract_gps_from_exif parse exif = Inr None"
  by (simp add: extract_gps_from_exif_def)

lemma extract_gps_missing_entry:
  "exif_get exif ''GPSInfo'' = PDict g \<Longrightarrow> dict_lookup g 2 = None \<or> dict_lookup g 4 = None
     \<Longrightarrow> extract_gps_from_exif parse exif = Inr None"
  by (auto simp: extract_gps_from_exif_def Let_def)

lemma extract_gps_tuple_raises:
  "extract_gps_from_exif parse [(''GPSInfo'', PTuple [PInt 2, PInt 4])] = Inl AttributeError"
  by (simp add: extract_gps_from_exif_def exif_get_def)

text \<open>
  C3. The resolver makes no range check: degrees \<open>100\<close> and \<open>200\<close> come back as they are.
\<close>

theorem gps_out_of_range:
  "extract_gps_from_exif no_parse
     (gps_exif (PStr ''N'') (PTuple [PInt 100, PInt 0, PInt 0])
        (PStr ''E'') (PTuple [PInt 200, PInt 0, PInt 0])) = Inr (Some (Fin 100, Fin 200))
   \<and> \<not> in_range (- 90) 90 (Fin 100) \<and> \<not> in_range (- 180) 180 (Fin 200)"
  by (simp add: out_of_range_value in_range_def)

text \<open>
  C3, amended. Whenever the resolver returns a pair, both coordinates are results of
  rounding to 7 decimal places.
\<close>

theorem gps_rounded:
  assumes "extract_gps_from_exif parse exif = Inr (Some (lat, lon))"
  shows "rounded7 lat \<and> rounded7 lon"
proof -
  from assms obtain a b lv lov where "extract_gps_try parse a b lv lov = Inr (Some (lat, lon))"
    by (auto simp: extract_gps_from_exif_def Let_def bind_def catch_def
          split: if_splits sum.splits)
  then show ?thesis by (rule extract_gps_try_rounded)
qed

theorem gps_rounded_witness:
  "extract_gps_from_exif no_parse
     (gps_exif (PStr ''N'') (PTuple [PInt 100, PInt 0, PInt 0])
        (PStr ''E'') (PTuple [PInt 200, PInt 0, PInt 0])) = Inr (Some (Fin 100, Fin 200))
   \<and> rounded7 (Fin 100) \<and> rounded7 (Fin 200)"
  using out_of_range_value gps_rounded [OF out_of_range_value] by simp

text \<open>
  C4. For triples of non-negative components, the coordinates are non-negative with the
  references \<open>N\<close> and \<open>E\<close>; with \<open>S\<close> or \<open>s\<close> the latitude, and with \<open>W\<close> or \<open>w\<close> the
  longitude, is the negation of that value, which is not positive.
\<close>

theorem gps_sign:
  assumes "map_of exif ''GPSInfo'' = Some (PDict g)"
    "dict_lookup g 2 = Some (PTuple [d1, m1, s1])"
    "dict_lookup g 4 = Some (PTuple [d2, m2, s2])"
    "list_all nonneg_component [d1, m1, s1, d2, m2, s2]"
    "dict_lookup g 1 = Some (PStr r1)" "dict_lookup g 3 = Some (PStr r2)"
    "r1 \<in> {''N'', ''S'', ''s''}" "r2 \<in> {''E'', ''W'', ''w''}"
  shows "fge0 (decimal_degrees parse d1 m1 s1) \<and> fge0 (decimal_degrees parse d2 m2 s2)
    \<and> fle0 (fneg (decimal_degrees parse d1 m1 s1)) \<and> fle0 (fneg (decimal_degrees parse d2 m2 s2))
    \<and> extract_gps_from_exif parse exif =
        Inr (Some (if r1 = ''N'' then decimal_degrees parse d1 m1 s1
                   else fneg (decimal_degrees parse d1 m1 s1),
                   if r2 = ''E'' then decimal_degrees parse d2 m2 s2
                   else fneg (decimal_degrees parse d2 m2 s2)))"
proof -
  have nn: "fge0 (decimal_degrees parse d m s)"
    if "nonneg_component d" "nonneg_component m" "nonneg_component s" for d m s
    unfolding decimal_degrees_def
    by (intro round7_nonneg fadd_nonneg fdiv_nonneg rational_value_nonneg that) simp_all
  have lat: "fge0 (decimal_degrees parse d1 m1 s1)" and lon: "fge0 (decimal_degrees parse d2 m2 s2)"
    using assms(4) by (simp_all add: nn)
  have "extract_gps_from_exif parse exif =
     Inr (Some (signed r1 ''S'' (decimal_degrees parse d1 m1 s1),
                signed r2 ''W'' (decimal_degrees parse d2 m2 s2)))"
    by (rule extract_gps_triples [OF assms(1-3)]) (simp_all add: assms(5,6) ref_text_def)
  with assms(7,8) lat lon show ?thesis
    by (auto simp: signed_def str_upper_literals fneg_nonpos)
qed

theorem gps_sign_witness:
  "fge0 (decimal_degrees no_parse (PInt 40) (PInt 26)
           (PFloat (Fin (6516427185828397 / 140737488355328))))
   \<and> fle0 (fneg (decimal_degrees no_parse (PInt 79) (PInt 56)
           (PFloat (Fin (3881751035072479 / 70368744177664)))))
   \<and> extract_gps_from_exif no_parse example_exif =
       Inr (Some (decimal_degrees no_parse (PInt 40) (PInt 26)
                    (PFloat (Fin (6516427185828397 / 140737488355328))),
                  fneg (decimal_degrees no_parse (PInt 79) (PInt 56)
                    (PFloat (Fin (3881751035072479 / 70368744177664))))))"
  using gps_sign [where exif = example_exif and parse = no_parse
      and ?r1.0 = "''N''" and ?r2.0 = "''W''"
      and g = "[(PInt 1, PStr ''N''),
         (PInt 2, PTuple [PInt 40, PInt 26, PFloat (Fin (6516427185828397 / 140737488355328))]),
         (PInt 3, PStr ''W''),
         (PInt 4, PTuple [PInt 79, PInt 56, PFloat (Fin (3881751035072479 / 70368744177664))])]"
      and ?d1.0 = "PInt 40" and ?m1.0 = "PInt 26"
      and ?s1.0 = "PFloat (Fin (6516427185828397 / 140737488355328))"
      and ?d2.0 = "PInt 79" and ?m2.0 = "PInt 56"
      and ?s2.0 = "PFloat (Fin (3881751035072479 / 70368744177664))"]
  by (simp add: example_exif_def)

text \<open>
  C5. The rational conversion always returns a float: the quotient for a pair with a
  truthy denominator, \<open>0.0\<close> for a pair with a falsy denominator, and \<open>0.0\<close> whenever the
  conversion raises.
\<close>

theorem rational_to_float_total:
  "(\<exists>f. rational_to_float parse r = Inr f)
   \<and> (\<not> truthy d \<longrightarrow> rational_to_float parse (PTuple [n, d]) = Inr (Fin 0))
   \<and> (truthy d \<and> py_float parse n = Inr x \<and> py_float parse d = Inr y \<and> \<not> is_zero y
        \<longrightarrow> rational_to_float parse (PTuple [n, d]) = Inr (fdiv x y))
   \<and> ((\<exists>e. rational_to_float_try parse r = Inl e) \<longrightarrow> rational_to_float parse r = Inr (Fin 0))"
  by (auto simp: rational_to_float_def catch_total py_truediv_def)

theorem rational_to_float_total_witness:
  "rational_to_float no_parse (PTuple [PInt 1, PInt 2]) = Inr (Fin (1 / 2))
   \<and> rational_to_float no_parse (PTuple [PInt 1, PInt 0]) = Inr (Fin 0)
   \<and> rational_to_float no_parse (PStr ''x'') = Inr (Fin 0)"
proof -
  have a: "py_float no_parse (PInt 1) = Inr (Fin 1)" "py_float no_parse (PInt 2) = Inr (Fin 2)"
    by (simp_all add: float_of_int_def b64_1 b64_2)
  have b: "fdiv (Fin 1) (Fin 2) = Fin (1 / 2)" by (simp add: b64_half)
  have c: "rational_to_float_try no_parse (PStr ''x'') = Inl ValueError"
    by (simp add: no_parse_def)
  show ?thesis
    using rational_to_float_total [of no_parse "PStr ''x''" "PInt 2" "PInt 1" "Fin 1" "Fin 2"]
      rational_to_float_total [of no_parse "PStr ''x''" "PInt 0" "PInt 1"] a b c
    by simp
qed

lemma decimal_degrees_nonneg:
  assumes "list_all nonneg_component [d, m, s]"
  shows "fge0 (decimal_degrees parse d m s)"
  unfolding decimal_degrees_def
  using assms
  by (intro round7_nonneg fadd_nonneg fdiv_nonneg rational_value_nonneg) simp_all

lemma extract_gps_try_upper:
  "extract_gps_try parse a b lv lov = Inr r
     \<Longrightarrow> \<exists>s t. py_upper (decode_ref a) = Inr s \<and> py_upper (decode_ref b) = Inr t"
  by (auto simp: extract_gps_try_def bind_def Let_def split: sum.splits)

lemma ref_not_text_upper:
  "ref_text r dflt = None
     \<Longrightarrow> py_upper (decode_ref (case r of None \<Rightarrow> PStr dflt | Some v \<Rightarrow> v)) = Inl AttributeError"
  by (auto simp: ref_text_def decode_ref_def split: option.splits pyval.splits)

lemma extract_gps_ref_not_text:
  assumes "map_of exif ''GPSInfo'' = Some (PDict g)"
    "ref_text (dict_lookup g 1) ''N'' = None \<or> ref_text (dict_lookup g 3) ''E'' = None"
  shows "extract_gps_from_exif parse exif = Inr None"
proof (cases "dict_lookup g 2 = None \<or> dict_lookup g 4 = None")
  case True
  have "exif_get exif ''GPSInfo'' = PDict g" using assms(1) by (simp add: exif_get_def)
  then show ?thesis using True by (rule extract_gps_missing_entry)
next
  case False
  then obtain lv lov where l: "dict_lookup g 2 = Some lv" "dict_lookup g 4 = Some lov"
    by auto
  have ne: "g \<noteq> []" using l(1) by (rule dict_lookup_nonempty)
  show ?thesis
  proof (cases "truthy lv \<and> truthy lov")
    case True
    let ?a = "case dict_lookup g 1 of None \<Rightarrow> PStr ''N'' | Some v \<Rightarrow> v"
    let ?b = "case dict_lookup g 3 of None \<Rightarrow> PStr ''E'' | Some v \<Rightarrow> v"
    have up: "py_upper (decode_ref ?a) = Inl AttributeError
        \<or> py_upper (decode_ref ?b) = Inl AttributeError"
      using assms(2) ref_not_text_upper [of "dict_lookup g 1" "''N''"]
        ref_not_text_upper [of "dict_lookup g 3" "''E''"] by blast
    have "\<exists>e. extract_gps_try parse ?a ?b lv lov = Inl e"
    proof (cases "extract_gps_try parse ?a ?b lv lov")
      case (Inl e)
      then show ?thesis by blast
    next
      case (Inr r)
      from extract_gps_try_upper [OF this] up show ?thesis by auto
    qed
    then obtain e where "extract_gps_try parse ?a ?b lv lov = Inl e" ..
    then show ?thesis
      using extract_gps_dict [OF assms(1) l, of parse] True by simp
  next
    case False
    then show ?thesis
      using assms(1) ne l by (auto simp: extract_gps_from_exif_def exif_get_def Let_def)
  qed
qed

text \<open>
  C10. A reference that is not a text is not treated like \<open>N\<close> or \<open>E\<close>: with the
  latitude reference \<open>5\<close> the resolver returns nothing, with \<open>N\<close> in its place a pair.
\<close>

theorem reference_not_text:
  "extract_gps_from_exif no_parse
     (gps_exif (PInt 5) (PTuple [PInt 100, PInt 0, PInt 0])
        (PStr ''E'') (PTuple [PInt 200, PInt 0, PInt 0])) = Inr None
   \<and> extract_gps_from_exif no_parse
     (gps_exif (PStr ''N'') (PTuple [PInt 100, PInt 0, PInt 0])
        (PStr ''E'') (PTuple [PInt 200, PInt 0, PInt 0])) = Inr (Some (Fin 100, Fin 200))"
proof -
  have "extract_gps_from_exif no_parse
     (gps_exif (PInt 5) (PTuple [PInt 100, PInt 0, PInt 0])
        (PStr ''E'') (PTuple [PInt 200, PInt 0, PInt 0])) = Inr None"
    by (rule extract_gps_ref_not_text [where g = "[(PInt 1, PInt 5),
          (PInt 2, PTuple [PInt 100, PInt 0, PInt 0]),
          (PInt 3, PStr ''E''), (PInt 4, PTuple [PInt 200, PInt 0, PInt 0])]"])
       (simp_all add: gps_exif_def ref_text_def)
  then show ?thesis by (simp add: out_of_range_value)
qed

text \<open>
  C10, amended. With a latitude triple and a longitude triple in the GPS sub-mapping, and
  references that are absent, \<open>str\<close> or \<open>bytes\<close>, the resolver returns a pair; an axis whose
  reference is not \<open>S\<close> (or \<open>W\<close>) up to case, whatever else it is, has the value that the
  references \<open>N\<close> and \<open>E\<close> give, which is not negative for components that are not
  negative. A reference of another type makes the resolver return nothing.
\<close>

theorem reference_unrecognized:
  assumes "map_of exif ''GPSInfo'' = Some (PDict g)"
    "dict_lookup g 2 = Some (PTuple [d1, m1, s1])"
    "dict_lookup g 4 = Some (PTuple [d2, m2, s2])"
  shows
    "(ref_text (dict_lookup g 1) ''N'' = Some r1 \<and> ref_text (dict_lookup g 3) ''E'' = Some r2 \<longrightarrow>
        (\<exists>lat lon. extract_gps_from_exif parse exif = Inr (Some (lat, lon))
           \<and> (str_upper r1 \<noteq> ''S'' \<longrightarrow> lat = decimal_degrees parse d1 m1 s1)
           \<and> (str_upper r2 \<noteq> ''W'' \<longrightarrow> lon = decimal_degrees parse d2 m2 s2)))
     \<and> extract_gps_from_exif parse
         (gps_exif (PStr ''N'') (PTuple [d1, m1, s1]) (PStr ''E'') (PTuple [d2, m2, s2])) =
         Inr (Some (decimal_degrees parse d1 m1 s1, decimal_degrees parse d2 m2 s2))
     \<and> (list_all nonneg_component [d1, m1, s1] \<longrightarrow> fge0 (decimal_degrees parse d1 m1 s1))
     \<and> (list_all nonneg_component [d2, m2, s2] \<longrightarrow> fge0 (decimal_degrees parse d2 m2 s2))
     \<and> (ref_text (dict_lookup g 1) ''N'' = None \<or> ref_text (dict_lookup g 3) ''E'' = None \<longrightarrow>
          extract_gps_from_exif parse exif = Inr None)"
proof (intro conjI impI)
  show "\<exists>lat lon. extract_gps_from_exif parse exif = Inr (Some (lat, lon))
           \<and> (str_upper r1 \<noteq> ''S'' \<longrightarrow> lat = decimal_degrees parse d1 m1 s1)
           \<and> (str_upper r2 \<noteq> ''W'' \<longrightarrow> lon = decimal_degrees parse d2 m2 s2)"
    if "ref_text (dict_lookup g 1) ''N'' = Some r1 \<and> ref_text (dict_lookup g 3) ''E'' = Some r2"
    using extract_gps_triples [OF assms, of r1 r2 parse] that by (simp add: signed_def)
  show "extract_gps_from_exif parse
         (gps_exif (PStr ''N'') (PTuple [d1, m1, s1]) (PStr ''E'') (PTuple [d2, m2, s2])) =
         Inr (Some (decimal_degrees parse d1 m1 s1, decimal_degrees parse d2 m2 s2))"
    using extract_gps_triples [where parse = parse
        and exif = "gps_exif (PStr ''N'') (PTuple [d1, m1, s1]) (PStr ''E'') (PTuple [d2, m2, s2])"
        and g = "[(PInt 1, PStr ''N''), (PInt 2, PTuple [d1, m1, s1]),
                  (PInt 3, PStr ''E''), (PInt 4, PTuple [d2, m2, s2])]"
        and ?r1.0 = "''N''" and ?r2.0 = "''E''"
        and ?d1.0 = d1 and ?m1.0 = m1 and ?s1.0 = s1
        and ?d2.0 = d2 and ?m2.0 = m2 and ?s2.0 = s2]
    by (simp add: gps_exif_def ref_text_def signed_def str_upper_literals)
  show "fge0 (decimal_degrees parse d1 m1 s1)" if "list_all nonneg_component [d1, m1, s1]"
    using that by (rule decimal_degrees_nonneg)
  show "fge0 (decimal_degrees parse d2 m2 s2)" if "list_all nonneg_component [d2, m2, s2]"
    using that by (rule decimal_degrees_nonneg)
  show "extract_gps_from_exif parse exif = Inr None"
    if "ref_text (dict_lookup g 1) ''N'' = None \<or> ref_text (dict_lookup g 3) ''E'' = None"
    using assms(1) that by (rule extract_gps_ref_not_text)
qed

theorem reference_unrecognized_witness:
  "extract_gps_from_exif no_parse
     (gps_exif (PStr ''X'')
        (PTuple [PInt 40, PInt 26, PFloat (Fin (6516427185828397 / 140737488355328))])
        (PStr [])
        (PTuple [PInt 79, PInt 56, PFloat (Fin (3881751035072479 / 70368744177664))])) =
     Inr (Some (Fin (2846147948914913 / 70368744177664),
                Fin (703235818694945 / 8796093022208)))
   \<and> extract_gps_from_exif no_parse
     (gps_exif (PStr ''N'')
        (PTuple [PInt 40, PInt 26, PFloat (Fin (6516427185828397 / 140737488355328))])
        (PStr ''E'')
        (PTuple [PInt 79, PInt 56, PFloat (Fin (3881751035072479 / 70368744177664))])) =
     Inr (Some (Fin (2846147948914913 / 70368744177664),
                Fin (703235818694945 / 8796093022208)))
   \<and> fge0 (Fin (2846147948914913 / 70368744177664))
   \<and> fge0 (Fin (703235818694945 / 8796093022208))
   \<and> extract_gps_from_exif no_parse
     (gps_exif (PInt 5)
        (PTuple [PInt 40, PInt 26, PFloat (Fin (6516427185828397 / 140737488355328))])
        (PStr ''E'')
        (PTuple [PInt 79, PInt 56, PFloat (Fin (3881751035072479 / 70368744177664))])) =
     Inr None"
  using reference_unrecognized [where parse = no_parse
      and exif = "gps_exif (PStr ''X'')
        (PTuple [PInt 40, PInt 26, PFloat (Fin (6516427185828397 / 140737488355328))])
        (PStr [])
        (PTuple [PInt 79, PInt 56, PFloat (Fin (3881751035072479 / 70368744177664))])"
      and g = "[(PInt 1, PStr ''X''),
         (PInt 2, PTuple [PInt 40, PInt 26, PFloat (Fin (6516427185828397 / 140737488355328))]),
         (PInt 3, PStr []),
         (PInt 4, PTuple [PInt 79, PInt 56, PFloat (Fin (3881751035072479 / 70368744177664))])]"
      and ?r1.0 = "''X''" and ?r2.0 = "[]"
      and ?d1.0 = "PInt 40" and ?m1.0 = "PInt 26"
      and ?s1.0 = "PFloat (Fin (6516427185828397 / 140737488355328))"
      and ?d2.0 = "PInt 79" and ?m2.0 = "PInt 56"
      and ?s2.0 = "PFloat (Fin (3881751035072479 / 70368744177664))"]
    reference_unrecognized [where parse = no_parse
      and exif = "gps_exif (PInt 5)
        (PTuple [PInt 40, PInt 26, PFloat (Fin (6516427185828397 / 140737488355328))])
        (PStr ''E'')
        (PTuple [PInt 79, PInt 56, PFloat (Fin (3881751035072479 / 70368744177664))])"
      and g = "[(PInt 1, PInt 5),
         (PInt 2, PTuple [PInt 40, PInt 26, PFloat (Fin (6516427185828397 / 140737488355328))]),
         (PInt 3, PStr ''E''),
         (PInt 4, PTuple [PInt 79, PInt 56, PFloat (Fin (3881751035072479 / 70368744177664))])]"
      and ?d1.0 = "PInt 40" and ?m1.0 = "PInt 26"
      and ?s1.0 = "PFloat (Fin (6516427185828397 / 140737488355328))"
      and ?d2.0 = "PInt 79" and ?m2.0 = "PInt 56"
      and ?s2.0 = "PFloat (Fin (3881751035072479 / 70368744177664))"]
  by (simp add: gps_exif_def ref_text_def str_upper_literals example_lat example_lon)

section \<open>Claims about the other components\<close>

lemma map_of_dict_set: "map_of (dict_set k v d) = (map_of d)(k \<mapsto> v)"
  by (induction d) (auto simp: fun_eq_iff)

lemma map_of_fold_dict_set:
  "map_of (fold (\<lambda>(t, v) d. dict_set (f t) v d) raw d0) =
   map_of d0 ++ map_of (rev (map (\<lambda>(t, v). (f t, v)) raw))"
proof (induction raw arbitrary: d0)
  case Nil
  show ?case by simp
next
  case (Cons x raw)
  let ?F = "\<lambda>(t, v) d. dict_set (f t) v d"
  let ?G = "\<lambda>(t, v). (f t, v)"
  obtain t v where x: "x = (t, v)" by (cases x)
  have "fold ?F (x # raw) d0 = fold ?F raw (dict_set (f t) v d0)"
    by (simp add: x)
  then have "map_of (fold ?F (x # raw) d0) =
      map_of (dict_set (f t) v d0) ++ map_of (rev (map ?G raw))"
    by (simp only: Cons.IH)
  also have "\<dots> = (map_of d0)(f t \<mapsto> v) ++ map_of (rev (map ?G raw))"
    by (simp only: map_of_dict_set)
  also have "\<dots> = map_of d0 ++ map_of (rev (map ?G (x # raw)))"
    by (auto simp: x map_add_def fun_eq_iff split: option.splits)
  finally show ?case .
qed

lemma decode_exif_mapping:
  assumes "getexif img = Some (Inr (Some raw))"
  shows "\<exists>d. decode_exif tags img = Inr d
     \<and> map_of d = map_of (rev (map (\<lambda>(t, v). (tag_name tags t, v)) raw))"
proof (cases "raw = []")
  case True
  with assms show ?thesis by (simp add: decode_exif_def)
next
  case False
  with assms show ?thesis by (simp add: decode_exif_def map_of_fold_dict_set)
qed

lemma decode_exif_names:
  assumes "getexif img = Some (Inr (Some raw))" "decode_exif tags img = Inr d" "(t, v) \<in> set raw"
  shows "tag_name tags t \<in> fst ` set d"
proof -
  from decode_exif_mapping [OF assms(1), of tags] assms(2)
  have m: "map_of d = map_of (rev (map (\<lambda>(t, v). (tag_name tags t, v)) raw))" by simp
  have "tag_name tags t \<in> fst ` set (rev (map (\<lambda>(t, v). (tag_name tags t, v)) raw))"
    using assms(3) by force
  then have "tag_name tags t \<in> dom (map_of (rev (map (\<lambda>(t, v). (tag_name tags t, v)) raw)))"
    by (simp only: dom_map_of_conv_image_fst)
  then have "tag_name tags t \<in> dom (map_of d)" by (simp only: m)
  then show ?thesis by (simp only: dom_map_of_conv_image_fst)
qed

lemma str_int_59932: "str_int 59932 = ''59932''"
  by (simp add: str_int_def digits.simps)

text \<open>
  C6. The decoder has no handler: an exception of the accessor leaves it.
\<close>

theorem decode_exif_raises:
  "decode_exif example_tags broken_image = Inl (LibraryError ''not a TIFF file'')"
  by (simp add: decode_exif_def broken_image_def)

text \<open>
  C6, amended. Without an accessor, or when the accessor yields nothing, the decoder
  returns an empty mapping; when the accessor yields a mapping, the decoder returns one
  in which every raw tag id is under its name from the table, or under its decimal
  numeral when the table has no name for it, a later id of the same name winning; when
  the accessor raises, so does the decoder.
\<close>

theorem decode_exif_result:
  "(getexif img = None \<longrightarrow> decode_exif tags img = Inr [])
   \<and> (getexif img = Some (Inr None) \<longrightarrow> decode_exif tags img = Inr [])
   \<and> (getexif img = Some (Inr (Some raw)) \<longrightarrow>
        (\<exists>d. decode_exif tags img = Inr d
           \<and> map_of d = map_of (rev (map (\<lambda>(t, v). (tag_name tags t, v)) raw))
           \<and> (\<forall>(t, v) \<in> set raw. tag_name tags t \<in> fst ` set d)))
   \<and> (getexif img = Some (Inl e) \<longrightarrow> decode_exif tags img = Inl e)
   \<and> tag_name tags t = (case tags t of None \<Rightarrow> str_int t | Some n \<Rightarrow> n)"
proof (intro conjI impI)
  show "decode_exif tags img = Inr []" if "getexif img = None"
    using that by (simp add: decode_exif_def)
  show "decode_exif tags img = Inr []" if "getexif img = Some (Inr None)"
    using that by (simp add: decode_exif_def)
  show "decode_exif tags img = Inl e" if "getexif img = Some (Inl e)"
    using that by (simp add: decode_exif_def)
  show "tag_name tags t = (case tags t of None \<Rightarrow> str_int t | Some n \<Rightarrow> n)"
    by (simp add: tag_name_def)
  show "\<exists>d. decode_exif tags img = Inr d
           \<and> map_of d = map_of (rev (map (\<lambda>(t, v). (tag_name tags t, v)) raw))
           \<and> (\<forall>(t, v) \<in> set raw. tag_name tags t \<in> fst ` set d)"
    if h: "getexif img = Some (Inr (Some raw))"
  proof -
    from decode_exif_mapping [OF h, of tags] obtain d where d: "decode_exif tags img = Inr d"
      "map_of d = map_of (rev (map (\<lambda>(t, v). (tag_name tags t, v)) raw))" by blast
    have "\<forall>(t, v) \<in> set raw. tag_name tags t \<in> fst ` set d"
      using decode_exif_names [OF h d(1)] by blast
    with d show ?thesis by blast
  qed
qed

theorem decode_exif_result_witness:
  "decode_exif example_tags plain_image = Inr []
   \<and> (\<exists>d. decode_exif example_tags example_image = Inr d
         \<and> map_of d = map_of [(''59932'', PInt 1), (''Make'', PStr ''Canon'')])
   \<and> decode_exif example_tags broken_image = Inl (LibraryError ''not a TIFF file'')"
  using decode_exif_result [of plain_image example_tags]
    decode_exif_result [of example_image example_tags
      "[(271, PStr ''Canon''), (59932, PInt 1)]" _ 59932]
    decode_exif_result [of broken_image example_tags _ "LibraryError ''not a TIFF file''"]
  by (simp add: plain_image_def example_image_def broken_image_def example_tags_def
        tag_name_def str_int_59932) blast

lemma iptc_store_str_fails: "sf key = Inl e \<Longrightarrow> \<exists>e'. iptc_store sf key v d = Inl e'"
  by (cases "sf v") (simp_all add: iptc_store_def Let_def)

lemma iptc_loop_fails:
  "key \<in> set keys \<Longrightarrow> (\<exists>e. getitem key = Inl e) \<or> (\<exists>e. sf key = Inl e)
     \<Longrightarrow> \<exists>e. iptc_loop sf getitem keys d = Inl e"
proof (induction keys arbitrary: d)
  case Nil
  then show ?case by simp
next
  case (Cons k ks)
  show ?case
  proof (cases "getitem k")
    case (Inl e)
    then show ?thesis by simp
  next
    case (Inr v)
    show ?thesis
    proof (cases "iptc_store sf k v d")
      case (Inl e)
      with Inr show ?thesis by simp
    next
      case store: (Inr d')
      have "key \<noteq> k"
      proof
        assume "key = k"
        with Cons.prems(2) Inr obtain e where "sf k = Inl e" by auto
        from iptc_store_str_fails [of sf k e v d] this store show False by simp
      qed
      with Cons.prems have "key \<in> set ks" by simp
      from Cons.IH [OF this Cons.prems(2)] Inr store show ?thesis by simp
    qed
  qed
qed

text \<open>
  C7. The caption extractor returns an empty mapping when the library is not available,
  whatever the bytes, and when the constructor, the iteration, a lookup or the
  conversion of a key raises; it never raises.
\<close>

theorem extract_iptc_empty:
  "(\<not> avail \<longrightarrow> extract_iptc avail mk sf image_bytes = Inr [])
   \<and> ((\<exists>e. mk image_bytes = Inl e) \<longrightarrow> extract_iptc avail mk sf image_bytes = Inr [])
   \<and> (\<forall>info. mk image_bytes = Inr info
         \<and> (info_iter_error info \<noteq> None
            \<or> (\<exists>key \<in> set (info_keys info).
                 (\<exists>e. info_getitem info key = Inl e) \<or> (\<exists>e. sf key = Inl e)))
        \<longrightarrow> extract_iptc avail mk sf image_bytes = Inr [])
   \<and> (\<exists>d. extract_iptc avail mk sf image_bytes = Inr d)"
proof (intro conjI allI impI)
  show "extract_iptc avail mk sf image_bytes = Inr []" if "\<not> avail"
    using that by (simp add: extract_iptc_def)
  show "extract_iptc avail mk sf image_bytes = Inr []" if "\<exists>e. mk image_bytes = Inl e"
    using that by (auto simp: extract_iptc_def)
  show "extract_iptc avail mk sf image_bytes = Inr []"
    if h: "mk image_bytes = Inr info
         \<and> (info_iter_error info \<noteq> None
            \<or> (\<exists>key \<in> set (info_keys info).
                 (\<exists>e. info_getitem info key = Inl e) \<or> (\<exists>e. sf key = Inl e)))" for info
  proof (cases "iptc_loop sf (info_getitem info) (info_keys info) []")
    case (Inl e)
    with h show ?thesis by (simp add: extract_iptc_def)
  next
    case (Inr d)
    with h iptc_loop_fails [of _ "info_keys info" "info_getitem info" sf "[]"]
    have "info_iter_error info \<noteq> None" by fastforce
    with h Inr show ?thesis by (auto simp: extract_iptc_def)
  qed
  show "\<exists>d. extract_iptc avail mk sf image_bytes = Inr d"
    by (simp add: extract_iptc_def catch_total)
qed

theorem extract_iptc_empty_witness:
  "extract_iptc False (\<lambda>b. Inr example_info) (\<lambda>v. Inr []) ''bytes'' = Inr []
   \<and> extract_iptc True (\<lambda>b. Inl (LibraryError ''no marker'')) (\<lambda>v. Inr []) ''bytes'' = Inr []
   \<and> extract_iptc True (\<lambda>b. Inr example_info) (\<lambda>v. Inr []) ''bytes'' = Inr []"
  using extract_iptc_empty [of False "\<lambda>b. Inr example_info" "\<lambda>v. Inr []" "''bytes''"]
    extract_iptc_empty [of True "\<lambda>b. Inl (LibraryError ''no marker'')" "\<lambda>v. Inr []" "''bytes''"]
    extract_iptc_empty [of True "\<lambda>b. Inr example_info" "\<lambda>v. Inr []" "''bytes''"]
  by (simp add: example_info_def)

lemma strip_blank:
  assumes "\<forall>cs \<in> set (utf8_chars s). is_space cs" shows "strip s = []"
proof -
  have d: "dropWhile is_space (utf8_chars s) = []" using assms by simp
  show ?thesis unfolding strip_def d by simp
qed

text \<open>
  C8. The language identifier returns nothing when the library is not available, when
  the text is empty after trimming, so for a text of white space only, and when the
  detection raises; it never raises.
\<close>

theorem detect_language_absent:
  "(\<not> avail \<longrightarrow> detect_language avail dt s = Inr None)
   \<and> (strip s = [] \<longrightarrow> detect_language avail dt s = Inr None)
   \<and> ((\<forall>cs \<in> set (utf8_chars s). is_space cs) \<longrightarrow> detect_language avail dt s = Inr None)
   \<and> ((\<exists>e. dt s = Inl e) \<longrightarrow> detect_language avail dt s = Inr None)
   \<and> (\<exists>r. detect_language avail dt s = Inr r)"
  using strip_blank [of s]
  by (cases "dt s") (auto simp: detect_language_def)

theorem detect_language_absent_witness:
  "detect_language False (\<lambda>t. Inr ''en'') ''some words'' = Inr None
   \<and> detect_language True (\<lambda>t. Inr ''en'') '' \<newline> '' = Inr None
   \<and> detect_language True (\<lambda>t. Inl (LibraryError ''no features'')) ''some words'' = Inr None"
proof -
  have ws: "\<forall>cs \<in> set (utf8_chars '' \<newline> ''). is_space cs"
    by (simp add: utf8_len_def is_space_def byte_in_def)
  show ?thesis
    using detect_language_absent [of False "\<lambda>t. Inr ''en''" "''some words''"]
      detect_language_absent [of True "\<lambda>t. Inr ''en''" "'' \<newline> ''"]
      detect_language_absent [of True "\<lambda>t. Inl (LibraryError ''no features'')" "''some words''"]
      ws
    by blast
qed

lemma rsplit1_head_ext:
  assumes "CHR ''.'' \<notin> set ext" shows "rsplit1_head (base @ ''.'' @ ext) = base"
proof -
  have "dropWhile (\<lambda>c. c \<noteq> CHR ''.'') (rev ext @ CHR ''.'' # rev base) = CHR ''.'' # rev base"
    using assms by (subst dropWhile_append2) auto
  then show ?thesis by (simp add: rsplit1_head_def)
qed

lemma export_file_name_ext:
  assumes "CHR ''.'' \<notin> set ext"
  shows "export_file_name (base @ ''.'' @ ext) = base @ ''_metadata.json''"
  unfolding export_file_name_def rsplit1_head_ext [OF assms] by (rule refl)

lemma rsplit1_head_no_dot: "CHR ''.'' \<notin> set s \<Longrightarrow> rsplit1_head s = s"
  by (simp add: rsplit1_head_def)

lemma extract_iptc_total: "\<exists>d. extract_iptc avail mk sf bs = Inr d"
  by (simp add: extract_iptc_def catch_total)

lemma perform_ocr_total: "\<exists>t. perform_ocr avail f x = Inr t"
  by (simp add: perform_ocr_def catch_total)

lemma detect_language_total: "\<exists>r. detect_language avail dt s = Inr r"
  by (simp add: detect_language_def catch_total)

lemma meta_summary_keys:
  "map fst (meta_summary repr nm img exif iptc gps ocr lc) =
     [''file_name'', ''format'', ''size'', ''mode'', ''exif'', ''iptc'']
     @ (case gps of None \<Rightarrow> [] | Some p \<Rightarrow> [''gps'']) @ [''ocr_text'', ''ocr_language'']"
  by (simp add: meta_summary_def Let_def split: option.splits prod.splits)

lemma meta_summary_gps:
  "map_of (meta_summary repr nm img exif iptc gps ocr lc) ''gps'' =
     (case gps of
        None \<Rightarrow> None
      | Some (lat, lon) \<Rightarrow>
          Some (str_dict [(''latitude'', PFloat lat), (''longitude'', PFloat lon),
            (''maps_link'', PStr (''https://www.google.com/maps?q='' @ repr lat @ '','' @ repr lon))]))"
  by (simp add: meta_summary_def Let_def google_maps_link_def split: option.splits prod.splits)

lemma meta_summary_serializable:
  "json_serializable (str_dict (meta_summary repr nm img exif iptc gps ocr lc)) =
     (json_serializable (format img) \<and> json_serializable (mode img)
      \<and> json_serializable (str_dict exif) \<and> json_serializable (str_dict iptc))"
  by (cases lc) (auto simp: meta_summary_def Let_def str_dict_def split: option.splits prod.splits)

lemma main_export:
  assumes "image_open env bs = Inr img" "convert_rgb env img = Inr rgb"
    "decode_exif (TAGS env) img = Inr exif"
    "extract_gps_from_exif (parse_float env) exif = Inr gps"
  shows "\<exists>iptc ocr lc.
      extract_iptc (iptc_available env) (IPTCInfo env) (py_str env) bs = Inr iptc
    \<and> main env ocr_on lang_on nm bs =
        (if json_serializable
              (str_dict (meta_summary (float_repr env) nm img exif iptc gps ocr lc))
         then Inr (export_file_name nm, json_encode env False 2
                (str_dict (meta_summary (float_repr env) nm img exif iptc gps ocr lc)))
         else Inl TypeError)"
proof -
  obtain iptc where i: "extract_iptc (iptc_available env) (IPTCInfo env) (py_str env) bs = Inr iptc"
    using extract_iptc_total by blast
  obtain ocr where o: "(if ocr_on \<and> external_ocr_available env
       then perform_ocr (external_ocr_available env) (image_to_string env) rgb
       else Inr []) = Inr ocr"
    using perform_ocr_total [of "external_ocr_available env" "image_to_string env" rgb]
    by (cases "ocr_on \<and> external_ocr_available env") auto
  obtain lc where l: "(if lang_on \<and> strip ocr \<noteq> [] \<and> language_detection_available env
       then detect_language (language_detection_available env) (detect env) ocr
       else Inr None) = Inr lc"
    using detect_language_total [of "language_detection_available env" "detect env" ocr]
    by (cases "lang_on \<and> strip ocr \<noteq> [] \<and> language_detection_available env") auto
  have "main env ocr_on lang_on nm bs =
      (if json_serializable
            (str_dict (meta_summary (float_repr env) nm img exif iptc gps ocr lc))
       then Inr (export_file_name nm, json_encode env False 2
              (str_dict (meta_summary (float_repr env) nm img exif iptc gps ocr lc)))
       else Inl TypeError)"
    unfolding main_def by (simp only: assms i o l bind_simps json_dumps_def) simp
  with i show ?thesis by blast
qed

lemma example_resolved:
  assumes "map_of exif ''GPSInfo'' = map_of example_exif ''GPSInfo''"
  shows "extract_gps_from_exif no_parse exif =
     Inr (Some (Fin (2846147948914913 / 70368744177664),
                Fin (- (703235818694945 / 8796093022208))))"
proof -
  have "extract_gps_from_exif no_parse exif =
     Inr (Some (signed ''N'' ''S'' (decimal_degrees no_parse (PInt 40) (PInt 26)
                   (PFloat (Fin (6516427185828397 / 140737488355328)))),
                signed ''W'' ''W'' (decimal_degrees no_parse (PInt 79) (PInt 56)
                   (PFloat (Fin (3881751035072479 / 70368744177664))))))"
    by (rule extract_gps_triples [where g = "[(PInt 1, PStr ''N''),
         (PInt 2, PTuple [PInt 40, PInt 26, PFloat (Fin (6516427185828397 / 140737488355328))]),
         (PInt 3, PStr ''W''),
         (PInt 4, PTuple [PInt 79, PInt 56, PFloat (Fin (3881751035072479 / 70368744177664))])]"])
       (simp_all add: assms example_exif_def ref_text_def)
  then show ?thesis
    by (simp add: example_lat example_lon signed_def str_upper_literals)
qed

lemma decode_gps_image: "decode_exif gps_tags gps_image = Inr example_exif"
  by (simp add: decode_exif_def gps_image_def gps_tags_def tag_name_def example_exif_def
        exif_get_def)

lemma decode_version_image: "decode_exif gps_tags version_image = Inr version_exif"
  by (simp add: decode_exif_def version_image_def gps_tags_def tag_name_def version_exif_def)

lemma decode_plain_image: "decode_exif gps_tags plain_image = Inr []"
  by (simp add: decode_exif_def plain_image_def)

lemma example_serializable: "json_serializable (str_dict example_exif)"
  by (simp add: example_exif_def str_dict_def)




end
